theory Spec2Isabelle
  imports Complex_Main
begin

section \<open>Numbers and rectangles\<close>

text \<open>
  The program computes its geometry with JavaScript numbers. The embedding reads them as
  real numbers: \<open>Math.max\<close> is \<open>max\<close>, \<open>Math.ceil\<close> is the ceiling, \<open>Math.sqrt\<close> is the
  real square root, \<open>/\<close> is real division. Array lengths and loop indices are natural
  numbers (\<open>i % cols\<close> is \<open>mod\<close>, \<open>Math.floor(i / cols)\<close> is \<open>div\<close>).
  Rounding error of the 64-bit floats is outside the model.
\<close>

text \<open>
  The arguments \<open>x, y, w, h\<close> of a draw call: one placement rectangle
  (\<open>rect_x\<close>, \<open>rect_y\<close>, \<open>rect_w\<close>, \<open>rect_h\<close>).
\<close>

record placement =
  rect_x :: real
  rect_y :: real
  rect_w :: real
  rect_h :: real

text \<open>An \<open>ImageBitmap\<close>: a handle (here a number naming it) and its pixel size.\<close>

record bitmap =
  handle :: nat
  bwidth :: nat
  bheight :: nat

text \<open>
  The paint operations of one draw pass, in the order they are issued.
  \<^item> \<open>Background\<close>: step 1, \<open>clearRect\<close> and the background bitmap or fill colour.
  \<^item> \<open>Placeholder_text\<close>: \<open>fillText('Upload images to begin', ...)\<close>.
  \<^item> \<open>Cell img p zoom\<close>: a call \<open>drawImage(img, x, y, w, h, extraZoom)\<close> of the local
    helper (clip to the rectangle, contain-fit, zoom).
  \<^item> \<open>Tile img p\<close>: a direct \<open>ctx.drawImage(img, x, y, w, h)\<close> of the blurred backdrop.
  \<^item> \<open>Watermark_paint\<close>: step 3. \<open>Text_paint k\<close>: step 4, the k-th text layer.
\<close>

datatype paint =
    Background
  | Placeholder_text
  | Cell bitmap placement real
  | Tile bitmap placement
  | Watermark_paint
  | Text_paint nat

text \<open>
  The helper \<open>drawImage\<close> returns before painting when
  \<open>w <= 0 || h <= 0 || img.width <= 0 || img.height <= 0\<close>.
\<close>

definition drawImage_returns_early :: "bitmap \<Rightarrow> placement \<Rightarrow> bool" where
  "drawImage_returns_early img p \<longleftrightarrow>
     rect_w p \<le> 0 \<or> rect_h p \<le> 0 \<or> bwidth img \<le> 0 \<or> bheight img \<le> 0"

section \<open>The layout geometry\<close>

text \<open>
  \<open>Math.max(1, Math.ceil(Math.sqrt(n)))\<close> and \<open>Math.max(1, Math.ceil(n / cols))\<close>,
  as every case of the layout switch computes them.
\<close>

definition layout_cols :: "nat \<Rightarrow> nat" where
  "layout_cols n = max 1 (nat \<lceil>sqrt (real n)\<rceil>)"

definition layout_rows :: "nat \<Rightarrow> nat" where
  "layout_rows n = max 1 (nat \<lceil>real n / real (layout_cols n)\<rceil>)"

text \<open>
  An executable search for the least \<open>c\<close> with \<open>n \<le> c * c\<close>; \<open>layout_cols_code\<close>
  below shows that it computes \<open>Math.ceil(Math.sqrt(n))\<close>. (For an array length, which
  is below \<open>2^32\<close>, the correctly rounded double square root has the same ceiling as
  the real one.)
\<close>

function ceil_sqrt_from :: "nat \<Rightarrow> nat \<Rightarrow> nat" where
  "ceil_sqrt_from c n = (if n \<le> c * c then c else ceil_sqrt_from (Suc c) n)"
  by pat_completeness auto
termination
proof (relation "measure (\<lambda>(c, n). n - c)")
  show "wf (measure (\<lambda>(c, n). n - c))" by simp
next
  fix c n :: nat
  assume "\<not> n \<le> c * c"
  then have "c < n"
    by (cases "c = 0") (auto simp: not_le intro: le_less_trans [OF le_square])
  then show "((Suc c, n), (c, n)) \<in> measure (\<lambda>(c, n). n - c)" by simp
qed

definition ceil_sqrt :: "nat \<Rightarrow> nat" where
  "ceil_sqrt n = ceil_sqrt_from 0 n"

text \<open>
  The body of \<open>images.forEach((img, i) => ...)\<close> shared by the grid and the big cases:
  \<open>col = i % cols\<close>, \<open>row = Math.floor(i / cols)\<close>,
  \<open>x = startX + col * (cellWidth + gapX)\<close>, \<open>y = startY + row * (cellHeight + gapY)\<close>,
  \<open>drawImage(img, x, y, cellWidth, cellHeight)\<close>.
\<close>

definition cell_rect ::
  "real \<Rightarrow> real \<Rightarrow> real \<Rightarrow> real \<Rightarrow> real \<Rightarrow> real \<Rightarrow> nat \<Rightarrow> nat \<Rightarrow> placement" where
  "cell_rect startX startY cellWidth cellHeight gapX gapY cols i =
     \<lparr> rect_x = startX + real (i mod cols) * (cellWidth + gapX),
       rect_y = startY + real (i div cols) * (cellHeight + gapY),
       rect_w = cellWidth, rect_h = cellHeight \<rparr>"

definition forEach_cell ::
  "real \<Rightarrow> real \<Rightarrow> real \<Rightarrow> real \<Rightarrow> real \<Rightarrow> real \<Rightarrow> nat \<Rightarrow> bitmap list \<Rightarrow> paint list" where
  "forEach_cell startX startY cellWidth cellHeight gapX gapY cols imgs =
     map (\<lambda>i. Cell (imgs ! i) (cell_rect startX startY cellWidth cellHeight gapX gapY cols i) 1)
       [0..<length imgs]"

text \<open>Case \<open>'grid'\<close>, after its guard on the empty list.\<close>

definition grid_cellWidth :: "real \<Rightarrow> real \<Rightarrow> nat \<Rightarrow> real" where
  "grid_cellWidth W gapX n =
     max 0 ((W - (real (layout_cols n) + 1) * gapX) / real (layout_cols n))"

definition grid_cellHeight :: "real \<Rightarrow> real \<Rightarrow> nat \<Rightarrow> real" where
  "grid_cellHeight H gapY n =
     max 0 ((H - (real (layout_rows n) + 1) * gapY) / real (layout_rows n))"

definition grid_case :: "real \<Rightarrow> real \<Rightarrow> real \<Rightarrow> real \<Rightarrow> bitmap list \<Rightarrow> paint list" where
  "grid_case W H gapX gapY imgs =
     forEach_cell gapX gapY
       (grid_cellWidth W gapX (length imgs)) (grid_cellHeight H gapY (length imgs))
       gapX gapY (layout_cols (length imgs)) imgs"

text \<open>
  Cases \<open>'left-big'\<close> and \<open>'right-big'\<close>: the big rectangle, and the cells of the
  remaining images (\<open>startX\<close>, \<open>availableWidth\<close>, \<open>cellWidth\<close>, \<open>cellHeight\<close>).
\<close>

definition big_rect_lr :: "bool \<Rightarrow> real \<Rightarrow> real \<Rightarrow> real \<Rightarrow> real \<Rightarrow> placement" where
  "big_rect_lr isLeftBig W H gapX gapY =
     (let bigX = (if isLeftBig then gapX else W / 2 + gapX / 2);
          bigW = max 0 (W / 2 - gapX * (3 / 2));
          bigH = max 0 (H - gapY * 2)
      in \<lparr> rect_x = bigX, rect_y = gapY, rect_w = bigW, rect_h = bigH \<rparr>)"

definition lr_startX :: "bool \<Rightarrow> real \<Rightarrow> real \<Rightarrow> real" where
  "lr_startX isLeftBig W gapX = (if isLeftBig then W / 2 + gapX / 2 else gapX)"

definition lr_cellWidth :: "real \<Rightarrow> real \<Rightarrow> nat \<Rightarrow> real" where
  "lr_cellWidth W gapX n =
     (let availableWidth = max 0 (W / 2 - gapX * (3 / 2))
      in max 0 ((availableWidth - (real (layout_cols n) - 1) * gapX) / real (layout_cols n)))"

definition rest_cells_lr ::
  "bool \<Rightarrow> real \<Rightarrow> real \<Rightarrow> real \<Rightarrow> real \<Rightarrow> bitmap list \<Rightarrow> paint list" where
  "rest_cells_lr isLeftBig W H gapX gapY gridImages =
     forEach_cell (lr_startX isLeftBig W gapX) gapY
       (lr_cellWidth W gapX (length gridImages)) (grid_cellHeight H gapY (length gridImages))
       gapX gapY (layout_cols (length gridImages)) gridImages"

text \<open>
  Cases \<open>'top-big'\<close> and \<open>'bottom-big'\<close>: the big rectangle, and the cells of the
  remaining images (\<open>startY\<close>, \<open>gridHeight\<close>, \<open>cellWidth\<close>, \<open>cellHeight\<close>).
\<close>

definition big_rect_tb :: "bool \<Rightarrow> real \<Rightarrow> real \<Rightarrow> real \<Rightarrow> real \<Rightarrow> placement" where
  "big_rect_tb isTopBig W H gapX gapY =
     (let bigY = (if isTopBig then gapY else H / 2 + gapY / 2);
          bigW = max 0 (W - gapX * 2);
          bigH = max 0 (H / 2 - gapY * (3 / 2))
      in \<lparr> rect_x = gapX, rect_y = bigY, rect_w = bigW, rect_h = bigH \<rparr>)"

definition tb_startY :: "bool \<Rightarrow> real \<Rightarrow> real \<Rightarrow> real" where
  "tb_startY isTopBig H gapY = (if isTopBig then H / 2 + gapY / 2 else gapY)"

definition tb_cellHeight :: "real \<Rightarrow> real \<Rightarrow> nat \<Rightarrow> real" where
  "tb_cellHeight H gapY n =
     (let gridHeight = max 0 (H / 2 - gapY * (3 / 2))
      in max 0 ((gridHeight - (real (layout_rows n) - 1) * gapY) / real (layout_rows n)))"

definition rest_cells_tb ::
  "bool \<Rightarrow> real \<Rightarrow> real \<Rightarrow> real \<Rightarrow> real \<Rightarrow> bitmap list \<Rightarrow> paint list" where
  "rest_cells_tb isTopBig W H gapX gapY gridImages =
     forEach_cell gapX (tb_startY isTopBig H gapY)
       (grid_cellWidth W gapX (length gridImages)) (tb_cellHeight H gapY (length gridImages))
       gapX gapY (layout_cols (length gridImages)) gridImages"

text \<open>
  Case \<open>'single-blur'\<close>: the backdrop tiles (\<open>cellWidth = W / cols\<close>,
  \<open>cellHeight = H / rows\<close>, drawn with \<open>ctx.drawImage\<close> directly) and the rectangle of
  the focused image (\<open>maxW = W * 0.8\<close>, \<open>maxH = H * 0.9\<close>, centred).
\<close>

definition blur_tile_rect :: "real \<Rightarrow> real \<Rightarrow> nat \<Rightarrow> nat \<Rightarrow> placement" where
  "blur_tile_rect W H n i =
     (let cols = layout_cols n; rows = layout_rows n;
          cellWidth = W / real cols; cellHeight = H / real rows
      in \<lparr> rect_x = real (i mod cols) * cellWidth, rect_y = real (i div cols) * cellHeight,
           rect_w = cellWidth, rect_h = cellHeight \<rparr>)"

definition blur_tiles :: "real \<Rightarrow> real \<Rightarrow> bitmap list \<Rightarrow> paint list" where
  "blur_tiles W H bgImages =
     map (\<lambda>i. Tile (bgImages ! i) (blur_tile_rect W H (length bgImages) i))
       [0..<length bgImages]"

definition focus_rect :: "real \<Rightarrow> real \<Rightarrow> placement" where
  "focus_rect W H =
     (let maxW = W * (8 / 10); maxH = H * (9 / 10);
          cellX = (W - maxW) / 2; cellY = (H - maxH) / 2
      in \<lparr> rect_x = cellX, rect_y = cellY, rect_w = maxW, rect_h = maxH \<rparr>)"

definition single_blur_case :: "real \<Rightarrow> real \<Rightarrow> real \<Rightarrow> bitmap list \<Rightarrow> paint list" where
  "single_blur_case W H mainZoom loadedGridImages =
     (let bgImages = drop 1 loadedGridImages
      in (if length bgImages > 0 then blur_tiles W H bgImages else []) @
         (if length loadedGridImages > 0
          then [Cell (loadedGridImages ! 0) (focus_rect W H) mainZoom] else []))"

section \<open>Layout modes\<close>

text \<open>
  Every string that the source uses as a layout mode: the members of the union type
  \<open>LayoutMode\<close> of \<open>types.ts\<close>, and \<open>'freeform'\<close>, which the application's selector and
  its layout switch use.
\<close>

datatype mode_name =
    Grid | Left_big | Right_big | Top_big | Bottom_big
  | Single_blur | Grid_square | Justified | Freeform

text \<open>The union type \<open>LayoutMode\<close> of \<open>types.ts\<close>, in the order of its declaration.\<close>

definition LayoutMode :: "mode_name list" where
  "LayoutMode =
     [Grid, Left_big, Right_big, Top_big, Bottom_big, Single_blur, Grid_square, Justified]"

text \<open>
  The \<open>option\<close> values of the layout selector of the application, in their order
  (labels: Grid, Freeform, Single Focus, Left Big, Right Big, Top Big, Bottom Big).
\<close>

definition layout_mode_options :: "mode_name list" where
  "layout_mode_options =
     [Grid, Freeform, Single_blur, Left_big, Right_big, Top_big, Bottom_big]"

section \<open>The export worker (export.worker.ts)\<close>

text \<open>The layout switch of \<open>drawExportCanvas\<close>: the big image is \<open>loadedGridImages[0]\<close>.\<close>

definition export_big_lr ::
  "bool \<Rightarrow> real \<Rightarrow> real \<Rightarrow> real \<Rightarrow> real \<Rightarrow> bitmap list \<Rightarrow> paint list" where
  "export_big_lr isLeftBig W H gapX gapY loadedGridImages =
     (if length loadedGridImages > 0
      then [Cell (loadedGridImages ! 0) (big_rect_lr isLeftBig W H gapX gapY) 1] else []) @
     (if length loadedGridImages > 1
      then rest_cells_lr isLeftBig W H gapX gapY (drop 1 loadedGridImages) else [])"

definition export_big_tb ::
  "bool \<Rightarrow> real \<Rightarrow> real \<Rightarrow> real \<Rightarrow> real \<Rightarrow> bitmap list \<Rightarrow> paint list" where
  "export_big_tb isTopBig W H gapX gapY loadedGridImages =
     (if length loadedGridImages > 0
      then [Cell (loadedGridImages ! 0) (big_rect_tb isTopBig W H gapX gapY) 1] else []) @
     (if length loadedGridImages > 1
      then rest_cells_tb isTopBig W H gapX gapY (drop 1 loadedGridImages) else [])"

fun export_layout ::
  "mode_name \<Rightarrow> real \<Rightarrow> real \<Rightarrow> real \<Rightarrow> real \<Rightarrow> real \<Rightarrow> bitmap list \<Rightarrow> paint list" where
  "export_layout Grid W H gapX gapY mainZoom imgs =
     (if length imgs = 0 then [] else grid_case W H gapX gapY imgs)"
| "export_layout Left_big W H gapX gapY mainZoom imgs = export_big_lr True W H gapX gapY imgs"
| "export_layout Right_big W H gapX gapY mainZoom imgs = export_big_lr False W H gapX gapY imgs"
| "export_layout Top_big W H gapX gapY mainZoom imgs = export_big_tb True W H gapX gapY imgs"
| "export_layout Bottom_big W H gapX gapY mainZoom imgs = export_big_tb False W H gapX gapY imgs"
| "export_layout Single_blur W H gapX gapY mainZoom imgs = single_blur_case W H mainZoom imgs"
| "export_layout _ W H gapX gapY mainZoom imgs = []"

text \<open>
  \<open>drawExportCanvas\<close>: \<open>scaleX = EXPORT_WIDTH / sourceDimensions.width\<close>,
  \<open>exportGapX = gap * scaleX\<close> (and the same in Y); then the background, the layout
  switch, the watermark (when the state has one, its bitmap is there and has a positive
  size) and the text layers. The function paints no placeholder. A source dimension of
  zero makes the JavaScript scale infinite; the real-number model does not cover it.
\<close>

record export_request =
  req_layoutMode :: mode_name
  req_gap :: real
  req_mainZoom :: real
  req_watermark :: bool
  req_textLayers :: nat
  req_grid :: "bitmap list"
  req_watermarkBitmap :: "bitmap option"

definition watermark_step :: "bool \<Rightarrow> bitmap option \<Rightarrow> paint list" where
  "watermark_step watermark_state watermarkBitmap =
     (case watermarkBitmap of
        None \<Rightarrow> []
      | Some b \<Rightarrow> if watermark_state \<and> bwidth b > 0 \<and> bheight b > 0
                  then [Watermark_paint] else [])"

definition text_step :: "nat \<Rightarrow> paint list" where
  "text_step n = map Text_paint [0..<n]"

definition drawExportCanvas ::
  "real \<Rightarrow> real \<Rightarrow> real \<Rightarrow> real \<Rightarrow> export_request \<Rightarrow> paint list" where
  "drawExportCanvas EXPORT_WIDTH EXPORT_HEIGHT source_width source_height r =
     (let scaleX = EXPORT_WIDTH / source_width;
          scaleY = EXPORT_HEIGHT / source_height;
          exportGapX = req_gap r * scaleX;
          exportGapY = req_gap r * scaleY
      in [Background] @
         export_layout (req_layoutMode r) EXPORT_WIDTH EXPORT_HEIGHT exportGapX exportGapY
           (req_mainZoom r) (req_grid r) @
         watermark_step (req_watermark r) (req_watermarkBitmap r) @
         text_step (req_textLayers r))"

text \<open>
  \<open>self.onmessage\<close> of the export worker. The outcomes of the calls into the browser
  are inputs: whether \<open>getContext('2d')\<close> gave a context, whether the draw pass threw,
  and whether \<open>convertToBlob\<close> gave a blob or rejected. The result is the list of
  messages posted, in order. A message is an object, here the list of its keys and
  values in the order of the object literal: \<open>{type: 'success', blob}\<close> or
  \<open>{type: 'error', error: ...}\<close>. A caught value is an \<open>Error\<close> with its message, or
  another value with its \<open>String(...)\<close>; the text posted is
  \<open>error instanceof Error ? error.message : String(error)\<close>. The call of \<open>getContext\<close>
  stands before the \<open>try\<close> block; the model takes it to return, a context or \<open>null\<close>.
\<close>

datatype thrown = Error_object string | Other_thrown string

datatype 'blob js_value = JString string | JBlob 'blob

type_synonym 'blob js_object = "(string \<times> 'blob js_value) list"

fun thrown_text :: "thrown \<Rightarrow> string" where
  "thrown_text (Error_object message) = message"
| "thrown_text (Other_thrown v) = v"

definition export_onmessage ::
  "bool \<Rightarrow> thrown + unit \<Rightarrow> thrown + 'blob \<Rightarrow> 'blob js_object list" where
  "export_onmessage has_ctx draw_outcome blob_outcome =
     (if \<not> has_ctx
      then [[(''type'', JString ''error''),
             (''error'', JString ''Could not get OffscreenCanvas context'')]]
      else case draw_outcome of
             Inl e \<Rightarrow> [[(''type'', JString ''error''), (''error'', JString (thrown_text e))]]
           | Inr _ \<Rightarrow>
               (case blob_outcome of
                  Inl e \<Rightarrow> [[(''type'', JString ''error''), (''error'', JString (thrown_text e))]]
                | Inr blob \<Rightarrow> [[(''type'', JString ''success''), (''blob'', JBlob blob)]]))"

section \<open>The application (App component)\<close>

text \<open>
  An \<open>ImageState\<close> (its \<open>File\<close> is left out), and the part of the component state that
  drawing and the layout controls read and write. The debounced copies of the sliders
  are the values themselves: the delay is outside the model.
\<close>

record ImageState =
  img_id :: string
  url :: string

record app_state =
  images :: "ImageState list"
  imageBitmaps :: "string \<rightharpoonup> bitmap"
  bigImageId :: "string option"
  layoutMode :: mode_name
  freeformTidyTick :: nat
  gap :: real
  globalZoom :: real
  mainZoom :: real
  bgBlur :: real
  bgOpacity :: real
  watermark :: bool
  watermarkBitmap :: "bitmap option"
  textLayers :: nat
  viewport_width :: real
  viewport_height :: real

text \<open>
  \<open>images.map(img => imageBitmaps.get(img.id)).filter(b => !!b)\<close>, and
  \<open>Array.prototype.findIndex\<close> with \<open>None\<close> for \<open>-1\<close>.
\<close>

definition loaded_bitmaps :: "(string \<rightharpoonup> bitmap) \<Rightarrow> ImageState list \<Rightarrow> bitmap list" where
  "loaded_bitmaps bitmaps imgs = List.map_filter (\<lambda>im. bitmaps (img_id im)) imgs"

fun findIndex :: "('a \<Rightarrow> bool) \<Rightarrow> 'a list \<Rightarrow> nat option" where
  "findIndex P [] = None"
| "findIndex P (a # as) = (if P a then Some 0 else map_option Suc (findIndex P as))"

text \<open>
  \<open>images.findIndex(i => i.id === (bigImageId ?? images[0]?.id))\<close>: the target is
  undefined (\<open>None\<close>) when there is no selection and no image.
\<close>

definition big_index :: "string option \<Rightarrow> ImageState list \<Rightarrow> nat option" where
  "big_index big_id imgs =
     (let target = (case big_id of
                      Some b \<Rightarrow> Some b
                    | None \<Rightarrow> (case imgs of [] \<Rightarrow> None | im # _ \<Rightarrow> Some (img_id im)))
      in findIndex (\<lambda>i. Some (img_id i) = target) imgs)"

text \<open>
  \<open>bigIdx >= 0 ? imageBitmaps.get(images[bigIdx].id) : loadedGridImages[0]\<close>, and the
  bitmaps of the other images:
  \<open>images.filter((im, idx) => idx !== bigIdx).map(...get...).filter(b => !!b)\<close>.
\<close>

definition app_big_bitmap ::
  "(string \<rightharpoonup> bitmap) \<Rightarrow> string option \<Rightarrow> ImageState list \<Rightarrow> bitmap option" where
  "app_big_bitmap bitmaps big_id imgs =
     (case big_index big_id imgs of
        Some k \<Rightarrow> bitmaps (img_id (imgs ! k))
      | None \<Rightarrow> (case loaded_bitmaps bitmaps imgs of [] \<Rightarrow> None | b # _ \<Rightarrow> Some b))"

definition app_gridImages ::
  "(string \<rightharpoonup> bitmap) \<Rightarrow> string option \<Rightarrow> ImageState list \<Rightarrow> bitmap list" where
  "app_gridImages bitmaps big_id imgs =
     loaded_bitmaps bitmaps
       (map snd (filter (\<lambda>(idx, im). Some idx \<noteq> big_index big_id imgs) (enumerate 0 imgs)))"

definition app_big_lr ::
  "bool \<Rightarrow> real \<Rightarrow> real \<Rightarrow> real \<Rightarrow> real \<Rightarrow> app_state \<Rightarrow> paint list" where
  "app_big_lr isLeftBig W H gapX gapY s =
     (if length (loaded_bitmaps (imageBitmaps s) (images s)) > 0
      then (case app_big_bitmap (imageBitmaps s) (bigImageId s) (images s) of
              Some b \<Rightarrow> [Cell b (big_rect_lr isLeftBig W H gapX gapY) 1]
            | None \<Rightarrow> [])
      else []) @
     (if length (images s) > 1
      then rest_cells_lr isLeftBig W H gapX gapY
             (app_gridImages (imageBitmaps s) (bigImageId s) (images s))
      else [])"

definition app_big_tb ::
  "bool \<Rightarrow> real \<Rightarrow> real \<Rightarrow> real \<Rightarrow> real \<Rightarrow> app_state \<Rightarrow> paint list" where
  "app_big_tb isTopBig W H gapX gapY s =
     (if length (loaded_bitmaps (imageBitmaps s) (images s)) > 0
      then (case app_big_bitmap (imageBitmaps s) (bigImageId s) (images s) of
              Some b \<Rightarrow> [Cell b (big_rect_tb isTopBig W H gapX gapY) 1]
            | None \<Rightarrow> [])
      else []) @
     (if length (images s) > 1
      then rest_cells_tb isTopBig W H gapX gapY
             (app_gridImages (imageBitmaps s) (bigImageId s) (images s))
      else [])"

text \<open>The layout switch of \<open>drawCanvas\<close> (case order of the source).\<close>

fun app_layout :: "mode_name \<Rightarrow> real \<Rightarrow> real \<Rightarrow> real \<Rightarrow> real \<Rightarrow> app_state \<Rightarrow> paint list" where
  "app_layout Freeform W H gapX gapY s = []"
| "app_layout Grid W H gapX gapY s =
     (if length (loaded_bitmaps (imageBitmaps s) (images s)) = 0 then []
      else grid_case W H gapX gapY (loaded_bitmaps (imageBitmaps s) (images s)))"
| "app_layout Left_big W H gapX gapY s = app_big_lr True W H gapX gapY s"
| "app_layout Right_big W H gapX gapY s = app_big_lr False W H gapX gapY s"
| "app_layout Top_big W H gapX gapY s = app_big_tb True W H gapX gapY s"
| "app_layout Bottom_big W H gapX gapY s = app_big_tb False W H gapX gapY s"
| "app_layout Single_blur W H gapX gapY s =
     single_blur_case W H (mainZoom s) (loaded_bitmaps (imageBitmaps s) (images s))"
| "app_layout _ W H gapX gapY s = []"

text \<open>
  \<open>drawCanvas(canvas, forExport)\<close>. Without a context it returns at once. The size is
  2000 x 1500 for an export and the logical size of the canvas otherwise; the scale is
  \<open>EXPORT / viewport\<close> for an export (\<open>handleExport\<close> returns before the call when a
  viewport side is zero) and 1 otherwise. With no image and \<open>!forExport\<close> it paints the
  placeholder text and returns.
\<close>

definition drawCanvas :: "app_state \<Rightarrow> bool \<Rightarrow> real \<Rightarrow> real \<Rightarrow> bool \<Rightarrow> paint list" where
  "drawCanvas s has_ctx logicalW logicalH forExport =
     (if \<not> has_ctx then []
      else
        let currentWidth = (if forExport then 2000 else logicalW);
            currentHeight = (if forExport then 1500 else logicalH);
            scaleX = (if forExport then 2000 / viewport_width s else 1);
            scaleY = (if forExport then 1500 / viewport_height s else 1)
        in [Background] @
           (if length (images s) = 0 \<and> \<not> forExport then [Placeholder_text]
            else app_layout (layoutMode s) currentWidth currentHeight
                   (gap s * scaleX) (gap s * scaleY) s @
                 watermark_step (watermark s) (watermarkBitmap s) @
                 text_step (textLayers s)))"

text \<open>
  Changing the mode: the selector's \<open>onChange\<close> calls \<open>setLayoutMode\<close>, and the effect on
  \<open>layoutMode\<close> then bumps \<open>freeformTidyTick\<close> when the new mode is \<open>'freeform'\<close>.
  The button "Reset Settings" sets the mode to \<open>'grid'\<close> among the other settings
  (background and text selection are not part of \<open>app_state\<close>).
\<close>

definition setLayoutMode :: "mode_name \<Rightarrow> app_state \<Rightarrow> app_state" where
  "setLayoutMode m s = s\<lparr>layoutMode := m\<rparr>"

definition layoutMode_effect :: "app_state \<Rightarrow> app_state" where
  "layoutMode_effect s =
     (if layoutMode s = Freeform then s\<lparr>freeformTidyTick := freeformTidyTick s + 1\<rparr> else s)"

definition select_layout_mode :: "mode_name \<Rightarrow> app_state \<Rightarrow> app_state" where
  "select_layout_mode m s =
     (if layoutMode s = m then s else layoutMode_effect (setLayoutMode m s))"

definition reset_settings :: "app_state \<Rightarrow> app_state" where
  "reset_settings s =
     (let s' = s\<lparr>watermark := False, watermarkBitmap := None, textLayers := 0,
                  globalZoom := 1, gap := 16, layoutMode := Grid, mainZoom := 1,
                  bgBlur := 10, bgOpacity := 3 / 10\<rparr>
      in if layoutMode s = Grid then s' else layoutMode_effect s')"

section \<open>The preview worker (ui worker)\<close>

text \<open>
  \<open>drawCanvas\<close> of the preview worker uses one \<open>gap\<close> for both axes and draws
  \<open>loadedGridImages[0]\<close> without a guard in the big and single-blur cases. On an empty
  bitmap list that argument is \<open>undefined\<close>: the helper returns early when
  \<open>w <= 0 || h <= 0\<close> and otherwise reads \<open>img.width\<close>, which throws a TypeError.
  A layout step gives the paints it issued, or the error. In the single-blur case the
  tiles are drawn before the focused image; the error arises only for an empty list,
  which has no tiles.
\<close>

datatype js_error = TypeError

definition ui_drawImage_first :: "bitmap list \<Rightarrow> placement \<Rightarrow> real \<Rightarrow> js_error + paint list" where
  "ui_drawImage_first imgs p zoom =
     (case imgs of
        [] \<Rightarrow> if rect_w p \<le> 0 \<or> rect_h p \<le> 0 then Inr [] else Inl TypeError
      | img # _ \<Rightarrow> Inr [Cell img p zoom])"

fun ui_layout :: "mode_name \<Rightarrow> real \<Rightarrow> real \<Rightarrow> real \<Rightarrow> real \<Rightarrow> bitmap list \<Rightarrow> js_error + paint list" where
  "ui_layout Grid W H g zoom imgs = Inr (grid_case W H g g imgs)"
| "ui_layout Left_big W H g zoom imgs =
     (case ui_drawImage_first imgs (big_rect_lr True W H g g) 1 of
        Inl e \<Rightarrow> Inl e
      | Inr ps \<Rightarrow> Inr (ps @ (if length imgs > 1
                             then rest_cells_lr True W H g g (drop 1 imgs) else [])))"
| "ui_layout Right_big W H g zoom imgs =
     (case ui_drawImage_first imgs (big_rect_lr False W H g g) 1 of
        Inl e \<Rightarrow> Inl e
      | Inr ps \<Rightarrow> Inr (ps @ (if length imgs > 1
                             then rest_cells_lr False W H g g (drop 1 imgs) else [])))"
| "ui_layout Top_big W H g zoom imgs =
     (case ui_drawImage_first imgs (big_rect_tb True W H g g) 1 of
        Inl e \<Rightarrow> Inl e
      | Inr ps \<Rightarrow> Inr (ps @ (if length imgs > 1
                             then rest_cells_tb True W H g g (drop 1 imgs) else [])))"
| "ui_layout Bottom_big W H g zoom imgs =
     (case ui_drawImage_first imgs (big_rect_tb False W H g g) 1 of
        Inl e \<Rightarrow> Inl e
      | Inr ps \<Rightarrow> Inr (ps @ (if length imgs > 1
                             then rest_cells_tb False W H g g (drop 1 imgs) else [])))"
| "ui_layout Single_blur W H g zoom imgs =
     (case ui_drawImage_first imgs (focus_rect W H) zoom of
        Inl e \<Rightarrow> Inl e
      | Inr ps \<Rightarrow> Inr ((if length (drop 1 imgs) > 0 then blur_tiles W H (drop 1 imgs) else [])
                        @ ps))"
| "ui_layout _ W H g zoom imgs = Inr []"

text \<open>
  The whole pass: the paints issued and the error that ended it, if any (the handler
  \<open>onmessage\<close> catches and logs it). \<open>n_images\<close> is \<open>state.images.length\<close>.
\<close>

definition ui_drawCanvas ::
  "real \<Rightarrow> real \<Rightarrow> mode_name \<Rightarrow> nat \<Rightarrow> real \<Rightarrow> real \<Rightarrow> bool \<Rightarrow> bitmap list \<Rightarrow> bitmap option
     \<Rightarrow> paint list \<times> js_error option" where
  "ui_drawCanvas W H mode n_images g zoom watermark_state grid_bitmaps wm_bitmap =
     (if n_images = 0 then ([Background, Placeholder_text], None)
      else case ui_layout mode W H g zoom grid_bitmaps of
             Inl e \<Rightarrow> ([Background], Some e)
           | Inr ps \<Rightarrow> ([Background] @ ps @ watermark_step watermark_state wm_bitmap, None))"

section \<open>Snapping in the freeform canvas (FreeformCanvas.tsx)\<close>

text \<open>
  An item of the freeform scene (its image element is left out), and the values that
  \<open>getSnapped\<close> closes over: the canvas size, the toggles and numbers of the controls,
  the items and the id of the active one. \<open>rows\<close> and \<open>cols\<close> come from number inputs
  and are numbers, not necessarily whole.
\<close>

record Item =
  item_id :: string
  item_x :: real
  item_y :: real
  scale :: real
  rotation :: real

record snap_config =
  size_w :: real
  size_h :: real
  snapGrid :: bool
  gridSize :: real
  showCells :: bool
  cell_rows :: real
  cell_cols :: real
  cellGapX :: real
  cellGapY :: real
  snapSmart :: bool
  items :: "Item list"
  activeId :: "string option"

record snapped =
  snap_x :: real
  snap_y :: real
  guidesX :: "real list"
  guidesY :: "real list"

text \<open>\<open>const thresh = 8\<close>, and \<open>Math.round\<close>, which rounds halves up.\<close>

definition thresh :: real where
  "thresh = 8"

definition js_round :: "real \<Rightarrow> real" where
  "js_round v = of_int \<lfloor>v + 1 / 2\<rfloor>"

text \<open>
  The pixel-grid candidate \<open>Math.round(n / gridSize) * gridSize\<close>. With \<open>gridSize = 0\<close>
  the JavaScript value is NaN, which fails both comparisons of the search loop and is
  never chosen; the model leaves it out.
\<close>

definition grid_candidate :: "real \<Rightarrow> real \<Rightarrow> real list" where
  "grid_candidate n gsize = (if gsize = 0 then [] else [js_round (n / gsize) * gsize])"

text \<open>
  The cell candidates: three per cell and axis, pushed in the order of the nested loops
  \<open>for r ... for c ...\<close>. A loop \<open>for (k = 0; k < m; k++)\<close> over a number \<open>m\<close> runs
  for \<open>k = 0, ..., ceil(m) - 1\<close>.
\<close>

definition loop_range :: "real \<Rightarrow> nat list" where
  "loop_range m = [0..<nat \<lceil>m\<rceil>]"

definition cell_candidates_x :: "snap_config \<Rightarrow> real list" where
  "cell_candidates_x cfg =
     (let cellW = (size_w cfg - (cell_cols cfg + 1) * cellGapX cfg) / cell_cols cfg
      in concat (map (\<lambda>r. concat (map (\<lambda>c.
           (let x = cellGapX cfg + real c * (cellW + cellGapX cfg)
            in [x, x + cellW / 2, x + cellW])) (loop_range (cell_cols cfg))))
          (loop_range (cell_rows cfg))))"

definition cell_candidates_y :: "snap_config \<Rightarrow> real list" where
  "cell_candidates_y cfg =
     (let cellH = (size_h cfg - (cell_rows cfg + 1) * cellGapY cfg) / cell_rows cfg
      in concat (map (\<lambda>r. concat (map (\<lambda>c.
           (let y = cellGapY cfg + real r * (cellH + cellGapY cfg)
            in [y, y + cellH / 2, y + cellH])) (loop_range (cell_cols cfg))))
          (loop_range (cell_rows cfg))))"

definition other_items :: "snap_config \<Rightarrow> Item list" where
  "other_items cfg = filter (\<lambda>it. Some (item_id it) \<noteq> activeId cfg) (items cfg)"

definition candX :: "snap_config \<Rightarrow> real \<Rightarrow> real list" where
  "candX cfg nx =
     [0, size_w cfg / 2, size_w cfg] @
     (if snapGrid cfg then grid_candidate nx (gridSize cfg) else []) @
     (if showCells cfg \<and> cell_rows cfg > 0 \<and> cell_cols cfg > 0
      then cell_candidates_x cfg else []) @
     (if snapSmart cfg \<and> length (items cfg) > 1 then map item_x (other_items cfg) else [])"

definition candY :: "snap_config \<Rightarrow> real \<Rightarrow> real list" where
  "candY cfg ny =
     [0, size_h cfg / 2, size_h cfg] @
     (if snapGrid cfg then grid_candidate ny (gridSize cfg) else []) @
     (if showCells cfg \<and> cell_rows cfg > 0 \<and> cell_cols cfg > 0
      then cell_candidates_y cfg else []) @
     (if snapSmart cfg \<and> length (items cfg) > 1 then map item_y (other_items cfg) else [])"

text \<open>
  The search loop of one axis. The loop state is \<open>(best, s, g)\<close>, initially
  \<open>(thresh + 1, n, null)\<close>; a candidate \<open>t\<close> with \<open>d = |t - n|\<close>, \<open>d < best\<close> and
  \<open>d <= thresh\<close> replaces it by \<open>(d, t, t)\<close>.
\<close>

definition snap_step :: "real \<Rightarrow> real \<times> real \<times> real option \<Rightarrow> real \<Rightarrow> real \<times> real \<times> real option" where
  "snap_step n st t =
     (case st of (best, s, g) \<Rightarrow>
        let d = \<bar>t - n\<bar> in if d < best \<and> d \<le> thresh then (d, t, Some t) else (best, s, g))"

definition snap_axis :: "real \<Rightarrow> real list \<Rightarrow> real \<times> real \<times> real option" where
  "snap_axis n cands = foldl (snap_step n) (thresh + 1, n, None) cands"

definition guide_list :: "real option \<Rightarrow> real list" where
  "guide_list g = (case g of None \<Rightarrow> [] | Some v \<Rightarrow> [v])"

definition getSnapped :: "snap_config \<Rightarrow> real \<Rightarrow> real \<Rightarrow> bool \<Rightarrow> snapped" where
  "getSnapped cfg nx ny ignoreSnap =
     (if ignoreSnap then \<lparr> snap_x = nx, snap_y = ny, guidesX = [], guidesY = [] \<rparr>
      else
        case snap_axis nx (candX cfg nx) of (bestDX, sx, gx) \<Rightarrow>
        case snap_axis ny (candY cfg ny) of (bestDY, sy, gy) \<Rightarrow>
          \<lparr> snap_x = sx, snap_y = sy, guidesX = guide_list gx, guidesY = guide_list gy \<rparr>)"

text \<open>
  The position that \<open>onMouseMove\<close> gives the dragged item: the pointer minus the drag
  offset, passed through \<open>getSnapped\<close> (with \<open>ignoreSnap = altKey\<close>) when one of the
  three toggles is on.
\<close>

definition drag_position :: "snap_config \<Rightarrow> real \<Rightarrow> real \<Rightarrow> real \<Rightarrow> real \<Rightarrow> bool \<Rightarrow> real \<times> real" where
  "drag_position cfg pointer_x pointer_y dx dy altDown =
     (let nx = pointer_x - dx; ny = pointer_y - dy
      in if snapSmart cfg \<or> snapGrid cfg \<or> showCells cfg
         then (let s = getSnapped cfg nx ny altDown in (snap_x s, snap_y s))
         else (nx, ny))"

text \<open>
  The invariant of the search loop after the candidates \<open>seen\<close>: either nothing was
  chosen and every candidate seen is farther than the threshold, or the chosen candidate
  is one of those seen, within the threshold, and no candidate seen is nearer.
\<close>

definition snap_inv :: "real \<Rightarrow> real list \<Rightarrow> real \<times> real \<times> real option \<Rightarrow> bool" where
  "snap_inv n seen st \<longleftrightarrow>
     (case st of (best, s, g) \<Rightarrow>
        (g = None \<and> s = n \<and> best = thresh + 1 \<and> list_all (\<lambda>t. thresh < \<bar>t - n\<bar>) seen) \<or>
        (g = Some s \<and> s \<in> set seen \<and> best = \<bar>s - n\<bar> \<and> best \<le> thresh \<and>
         list_all (\<lambda>t. best \<le> \<bar>t - n\<bar>) seen))"

section \<open>The grid algorithm on a sub-rectangle\<close>

text \<open>
  This definition follows the words of the specification, for comparison with the cells
  that the big cases compute: the grid algorithm restricted to a sub-rectangle is the
  grid case run on the width and height of the sub-rectangle, its cells shifted to the
  origin \<open>(x0, y0)\<close> of the sub-rectangle.
\<close>

fun shift_paint :: "real \<Rightarrow> real \<Rightarrow> paint \<Rightarrow> paint" where
  "shift_paint x0 y0 (Cell b p z) =
     Cell b (p\<lparr> rect_x := x0 + rect_x p, rect_y := y0 + rect_y p \<rparr>) z"
| "shift_paint x0 y0 (Tile b p) =
     Tile b (p\<lparr> rect_x := x0 + rect_x p, rect_y := y0 + rect_y p \<rparr>)"
| "shift_paint x0 y0 q = q"

definition grid_in_rect ::
  "real \<Rightarrow> real \<Rightarrow> real \<Rightarrow> real \<Rightarrow> real \<Rightarrow> real \<Rightarrow> bitmap list \<Rightarrow> paint list" where
  "grid_in_rect x0 y0 w h gapX gapY imgs = map (shift_paint x0 y0) (grid_case w h gapX gapY imgs)"

section \<open>Placements, overlap and the canvas\<close>

text \<open>
  The placement rectangles of a draw pass are the rectangles of its image paints, in
  order; \<open>tile_placements\<close> keeps those of the backdrop tiles only. Two rectangles
  overlap when their intersection has a positive area. A rectangle is inside the canvas
  when it lies in \<open>[0, W] x [0, H]\<close>. A rectangle has an area when its width and height
  are positive: these are the rectangles in which the helper \<open>drawImage\<close> paints.
  A list of placements is well placed when no two of them overlap and those with an
  area are inside the canvas.
\<close>

fun paint_rect :: "paint \<Rightarrow> placement option" where
  "paint_rect (Cell b p z) = Some p"
| "paint_rect (Tile b p) = Some p"
| "paint_rect _ = None"

definition placements :: "paint list \<Rightarrow> placement list" where
  "placements ps = List.map_filter paint_rect ps"

fun tile_rect :: "paint \<Rightarrow> placement option" where
  "tile_rect (Tile b p) = Some p"
| "tile_rect _ = None"

definition tile_placements :: "paint list \<Rightarrow> placement list" where
  "tile_placements ps = List.map_filter tile_rect ps"

definition overlap :: "placement \<Rightarrow> placement \<Rightarrow> bool" where
  "overlap a b \<longleftrightarrow>
     max (rect_x a) (rect_x b) < min (rect_x a + rect_w a) (rect_x b + rect_w b) \<and>
     max (rect_y a) (rect_y b) < min (rect_y a + rect_h a) (rect_y b + rect_h b)"

definition inside_canvas :: "real \<Rightarrow> real \<Rightarrow> placement \<Rightarrow> bool" where
  "inside_canvas W H p \<longleftrightarrow>
     0 \<le> rect_x p \<and> 0 \<le> rect_y p \<and> rect_x p + rect_w p \<le> W \<and> rect_y p + rect_h p \<le> H"

definition has_area :: "placement \<Rightarrow> bool" where
  "has_area p \<longleftrightarrow> 0 < rect_w p \<and> 0 < rect_h p"

definition no_overlaps :: "placement list \<Rightarrow> bool" where
  "no_overlaps ps = sorted_wrt (\<lambda>a b. \<not> overlap a b) ps"

definition well_placed :: "real \<Rightarrow> real \<Rightarrow> placement list \<Rightarrow> bool" where
  "well_placed W H ps \<longleftrightarrow> no_overlaps ps \<and> list_all (inside_canvas W H) (filter has_area ps)"

section \<open>Example inputs\<close>

text \<open>A 640 x 480 bitmap with handle \<open>k\<close>, and an application state with four images.\<close>

definition bmp :: "nat \<Rightarrow> bitmap" where
  "bmp k = \<lparr> handle = k, bwidth = 640, bheight = 480 \<rparr>"

definition four_images :: app_state where
  "four_images =
     \<lparr> images = [\<lparr>img_id = ''a'', url = ''blob:a''\<rparr>, \<lparr>img_id = ''b'', url = ''blob:b''\<rparr>,
                 \<lparr>img_id = ''c'', url = ''blob:c''\<rparr>, \<lparr>img_id = ''d'', url = ''blob:d''\<rparr>],
       imageBitmaps = [''a'' \<mapsto> bmp 0, ''b'' \<mapsto> bmp 1, ''c'' \<mapsto> bmp 2, ''d'' \<mapsto> bmp 3],
       bigImageId = Some ''a'', layoutMode = Grid, freeformTidyTick = 0, gap = 16,
       globalZoom = 1, mainZoom = 1, bgBlur = 10, bgOpacity = 3 / 10,
       watermark = False, watermarkBitmap = None, textLayers = 0,
       viewport_width = 800, viewport_height = 600 \<rparr>"

text \<open>
  A freeform canvas of 800 x 800 with a 40 pixel grid, snapping to the grid and to
  other items, the cell overlay off, and two items of which \<open>a\<close> is being dragged.
\<close>

definition example_snap :: snap_config where
  "example_snap =
     \<lparr> size_w = 800, size_h = 800, snapGrid = True, gridSize = 40, showCells = False,
       cell_rows = 2, cell_cols = 3, cellGapX = 16, cellGapY = 16, snapSmart = True,
       items = [\<lparr>item_id = ''a'', item_x = 395, item_y = 300, scale = 1, rotation = 0\<rparr>,
                \<lparr>item_id = ''b'', item_x = 610, item_y = 130, scale = 1, rotation = 0\<rparr>],
       activeId = Some ''a'' \<rparr>"

text \<open>
  A freeform canvas of 784 x 800 with the cell overlay of 2 rows and 3 columns on (gaps
  of 16, so cells of 240 x 376), snapping to the grid and to other items off, item \<open>a\<close>
  being dragged and item \<open>b\<close> centred at (50, 130); and the same canvas with the cell
  overlay off as well.
\<close>

definition example_cells :: snap_config where
  "example_cells =
     \<lparr> size_w = 784, size_h = 800, snapGrid = False, gridSize = 40, showCells = True,
       cell_rows = 2, cell_cols = 3, cellGapX = 16, cellGapY = 16, snapSmart = False,
       items = [\<lparr>item_id = ''a'', item_x = 45, item_y = 300, scale = 1, rotation = 0\<rparr>,
                \<lparr>item_id = ''b'', item_x = 50, item_y = 130, scale = 1, rotation = 0\<rparr>],
       activeId = Some ''a'' \<rparr>"

definition example_off :: snap_config where
  "example_off = example_cells \<lparr> showCells := False \<rparr>"

text \<open>
  An application state and an export request with an empty working set of images.
\<close>

definition no_images :: app_state where
  "no_images =
     \<lparr> images = [], imageBitmaps = Map.empty, bigImageId = None, layoutMode = Grid,
       freeformTidyTick = 0, gap = 16, globalZoom = 1, mainZoom = 1, bgBlur = 10,
       bgOpacity = 3 / 10, watermark = False, watermarkBitmap = None, textLayers = 0,
       viewport_width = 800, viewport_height = 600 \<rparr>"

definition no_images_request :: export_request where
  "no_images_request =
     \<lparr> req_layoutMode = Grid, req_gap = 16, req_mainZoom = 1, req_watermark = False,
       req_textLayers = 0, req_grid = [], req_watermarkBitmap = None \<rparr>"

section \<open>Facts about the column and row counts\<close>

lemma ceil_sqrt_from_least:
  "(\<forall>d<c. d * d < n) \<Longrightarrow>
     n \<le> ceil_sqrt_from c n * ceil_sqrt_from c n \<and> (\<forall>d<ceil_sqrt_from c n. d * d < n)"
proof (induction c n rule: ceil_sqrt_from.induct)
  case (1 c n)
  show ?case
  proof (cases "n \<le> c * c")
    case True
    with "1.prems" show ?thesis by simp
  next
    case False
    then have "\<forall>d<Suc c. d * d < n"
      using "1.prems" by (auto simp: less_Suc_eq)
    from "1.IH" [OF False this] False show ?thesis by simp
  qed
qed

lemma ceiling_sqrt_unique:
  assumes "n \<le> r * r" and "\<forall>d<r. d * d < n"
  shows "nat \<lceil>sqrt (real n)\<rceil> = r"
proof (cases r)
  case 0
  with assms show ?thesis by simp
next
  case (Suc k)
  have up: "sqrt (real n) \<le> real r"
    using assms(1) by (metis of_nat_le_iff of_nat_mult real_le_lsqrt of_nat_0_le_iff power2_eq_square)
  have "k * k < n" using assms(2) Suc by simp
  then have "real k * real k < real n" by (metis of_nat_less_iff of_nat_mult)
  then have lo: "real k < sqrt (real n)"
    by (metis power2_eq_square real_less_rsqrt)
  have "\<lceil>sqrt (real n)\<rceil> = int r"
    using up lo Suc by (intro ceiling_unique) auto
  then show ?thesis by simp
qed

lemma ceil_sqrt_correct: "nat \<lceil>sqrt (real n)\<rceil> = ceil_sqrt n"
  using ceil_sqrt_from_least [of 0 n] unfolding ceil_sqrt_def
  by (intro ceiling_sqrt_unique) auto

lemma layout_cols_code: "layout_cols n = max 1 (ceil_sqrt n)"
  by (simp add: layout_cols_def ceil_sqrt_correct)

lemma ceil_sqrt_bounds: "n \<le> ceil_sqrt n * ceil_sqrt n \<and> (\<forall>d<ceil_sqrt n. d * d < n)"
  using ceil_sqrt_from_least [of 0 n] by (simp add: ceil_sqrt_def)

lemma layout_cols_pos: "1 \<le> layout_cols n"
  by (simp add: layout_cols_def)

lemma layout_rows_pos: "1 \<le> layout_rows n"
  by (simp add: layout_rows_def)

lemma ceil_sqrt_pos: "1 \<le> n \<Longrightarrow> 1 \<le> ceil_sqrt n"
  using ceil_sqrt_bounds [of n] by (cases "ceil_sqrt n") auto

lemma layout_cols_unclamped: "1 \<le> n \<Longrightarrow> layout_cols n = nat \<lceil>sqrt (real n)\<rceil>"
  using ceil_sqrt_pos [of n] by (simp add: layout_cols_def ceil_sqrt_correct)

lemma layout_rows_div: "layout_rows n = max 1 ((n + layout_cols n - 1) div layout_cols n)"
proof -
  define c where "c = layout_cols n"
  have c: "1 \<le> c" unfolding c_def by (rule layout_cols_pos)
  have "\<lceil>real n / real c\<rceil> = int ((n + c - 1) div c)"
  proof (rule ceiling_unique)
    have "real ((n + c - 1) div c) * real c \<le> real (n + c - 1)"
      by (metis of_nat_mult of_nat_le_iff div_times_less_eq_dividend)
    have "n + c - 1 = ((n + c - 1) div c) * c + (n + c - 1) mod c" by simp
    moreover have "(n + c - 1) mod c \<le> c - 1" using c
      by (metis One_nat_def Suc_pred less_Suc_eq_le less_le_trans mod_less_divisor zero_less_one)
    ultimately have "n \<le> ((n + c - 1) div c) * c" using c by linarith
    then have "real n \<le> real ((n + c - 1) div c) * real c"
      by (metis of_nat_mult of_nat_le_iff)
    then show "real n / real c \<le> real_of_int (int ((n + c - 1) div c))"
      using c by (simp add: field_simps)
    have "((n + c - 1) div c) * c \<le> n + c - 1" by simp
    then have "((n + c - 1) div c) * c < n + c" using c by linarith
    then have "real ((n + c - 1) div c) * real c < real n + real c"
      by (metis of_nat_mult of_nat_less_iff of_nat_add)
    then show "real_of_int (int ((n + c - 1) div c)) - 1 < real n / real c"
      using c by (simp add: field_simps)
  qed
  then show ?thesis by (simp add: layout_rows_def c_def)
qed

lemma layout_rows_unclamped:
  "1 \<le> n \<Longrightarrow> layout_rows n = nat \<lceil>real n / real (layout_cols n)\<rceil>"
proof -
  assume n: "1 \<le> n"
  have "0 < real n / real (layout_cols n)"
    using n layout_cols_pos [of n] by simp
  then have "1 \<le> \<lceil>real n / real (layout_cols n)\<rceil>" by linarith
  then have "1 \<le> nat \<lceil>real n / real (layout_cols n)\<rceil>" by linarith
  then show ?thesis unfolding layout_rows_def by (rule max_absorb2)
qed

lemma layout_cells_enough: "n \<le> layout_cols n * layout_rows n"
proof -
  define c where "c = layout_cols n"
  have c: "1 \<le> c" unfolding c_def by (rule layout_cols_pos)
  have "n + c - 1 = ((n + c - 1) div c) * c + (n + c - 1) mod c" by simp
  moreover have "(n + c - 1) mod c \<le> c - 1" using c
    by (metis One_nat_def Suc_pred less_Suc_eq_le less_le_trans mod_less_divisor zero_less_one)
  ultimately have "n \<le> ((n + c - 1) div c) * c" using c by linarith
  also have "\<dots> \<le> layout_rows n * c"
    by (simp add: layout_rows_div c_def)
  finally show ?thesis by (simp add: c_def mult.commute)
qed

lemma layout_cols_le: "1 \<le> n \<Longrightarrow> layout_cols n \<le> n"
proof -
  assume n: "1 \<le> n"
  define c where "c = ceil_sqrt n"
  have c1: "1 \<le> c" unfolding c_def using n by (rule ceil_sqrt_pos)
  have lc: "layout_cols n = c" using c1 by (simp add: layout_cols_code c_def)
  have "(c - 1) * (c - 1) < n" using ceil_sqrt_bounds [of n] c1 by (simp add: c_def)
  show ?thesis
  proof (cases "c \<le> 2")
    case True
    with c1 have "c = 1 \<or> c = 2" by linarith
    then show ?thesis
    proof
      assume "c = 1"
      with n lc show ?thesis by simp
    next
      assume "c = 2"
      with \<open>(c - 1) * (c - 1) < n\<close> lc show ?thesis by simp
    qed
  next
    case False
    then have "c \<le> (c - 1) * (c - 1)"
    proof -
      obtain k where k: "c = k + 3" using False by (metis le_add_diff_inverse2 not_less_eq_eq numeral_2_eq_2 numeral_3_eq_3)
      show ?thesis unfolding k by simp
    qed
    then show ?thesis using \<open>(c - 1) * (c - 1) < n\<close> lc by linarith
  qed
qed

lemma last_row_used: "1 \<le> n \<Longrightarrow> (n - 1) div layout_cols n = layout_rows n - 1"
proof -
  assume n: "1 \<le> n"
  define c where "c = layout_cols n"
  have c: "1 \<le> c" unfolding c_def by (rule layout_cols_pos)
  have "(n + c - 1) div c = ((n - 1) + c) div c" using n by simp
  also have "\<dots> = (n - 1) div c + 1" using c by simp
  finally have "layout_rows n = (n - 1) div c + 1"
    by (simp add: layout_rows_div c_def)
  then show ?thesis by (simp add: c_def)
qed

section \<open>The grid layout\<close>

lemma grid_case_unclamped_counts:
  assumes "1 \<le> length imgs"
  shows "grid_case W H gx gy imgs =
     map (\<lambda>i. Cell (imgs ! i)
            \<lparr> rect_x = gx + real (i mod nat \<lceil>sqrt (real (length imgs))\<rceil>)
                         * (max 0 ((W - (real (nat \<lceil>sqrt (real (length imgs))\<rceil>) + 1) * gx)
                                   / real (nat \<lceil>sqrt (real (length imgs))\<rceil>)) + gx),
              rect_y = gy + real (i div nat \<lceil>sqrt (real (length imgs))\<rceil>)
                         * (max 0 ((H - (real (nat \<lceil>real (length imgs) / real (nat \<lceil>sqrt (real (length imgs))\<rceil>)\<rceil>) + 1) * gy)
                                   / real (nat \<lceil>real (length imgs) / real (nat \<lceil>sqrt (real (length imgs))\<rceil>)\<rceil>)) + gy),
              rect_w = max 0 ((W - (real (nat \<lceil>sqrt (real (length imgs))\<rceil>) + 1) * gx)
                                   / real (nat \<lceil>sqrt (real (length imgs))\<rceil>)),
              rect_h = max 0 ((H - (real (nat \<lceil>real (length imgs) / real (nat \<lceil>sqrt (real (length imgs))\<rceil>)\<rceil>) + 1) * gy)
                                   / real (nat \<lceil>real (length imgs) / real (nat \<lceil>sqrt (real (length imgs))\<rceil>)\<rceil>)) \<rparr> 1)
       [0..<length imgs]"
  unfolding grid_case_def forEach_cell_def cell_rect_def grid_cellWidth_def grid_cellHeight_def
    layout_rows_unclamped [OF assms] 
  unfolding layout_cols_unclamped [OF assms] ..

lemma loaded_four:
  "loaded_bitmaps (imageBitmaps four_images) (images four_images) = [bmp 0, bmp 1, bmp 2, bmp 3]"
  by (simp add: four_images_def loaded_bitmaps_def List.map_filter_simps)

text \<open>
  C1. With \<open>N \<ge> 1\<close> images and the same gap \<open>g\<close> on both axes, the grid case of the
  export worker, of the application and of the preview worker issues one draw call per
  image, image \<open>i\<close> in column \<open>i mod cols\<close> and row \<open>i div cols\<close>, where
  \<open>cols = ceil(sqrt N)\<close>, \<open>rows = ceil(N / cols)\<close>, the cell width is
  \<open>(W - (cols + 1) g) / cols\<close> and the cell height \<open>(H - (rows + 1) g) / rows\<close>, both
  clamped at zero. The first cell starts at \<open>g\<close>, neighbouring cells are \<open>g\<close> apart, all
  \<open>cols\<close> columns and all \<open>rows\<close> rows are used, and where the size is not clamped the
  last column ends \<open>g\<close> before \<open>W\<close> and the last row \<open>g\<close> before \<open>H\<close>. The witness is the
  scenario of four images on an 800 x 600 canvas with gap 16: a 2 x 2 layout of cells
  376 wide and 276 high.
\<close>

theorem grid_layout:
  fixes W H g z :: real and imgs :: "bitmap list" and s :: app_state
  defines "N \<equiv> length imgs"
  defines "cols \<equiv> nat \<lceil>sqrt (real N)\<rceil>"
  defines "rows \<equiv> nat \<lceil>real N / real cols\<rceil>"
  defines "cw \<equiv> max 0 ((W - (real cols + 1) * g) / real cols)"
  defines "ch \<equiv> max 0 ((H - (real rows + 1) * g) / real rows)"
  defines "cells \<equiv> map (\<lambda>i. Cell (imgs ! i)
                       \<lparr> rect_x = g + real (i mod cols) * (cw + g),
                         rect_y = g + real (i div cols) * (ch + g),
                         rect_w = cw, rect_h = ch \<rparr> 1) [0..<N]"
  assumes N: "1 \<le> length imgs"
    and loaded: "loaded_bitmaps (imageBitmaps s) (images s) = imgs"
  shows "export_layout Grid W H g g z imgs = cells
       \<and> app_layout Grid W H g g s = cells
       \<and> ui_layout Grid W H g z imgs = Inr cells
       \<and> 1 \<le> cols \<and> cols \<le> N \<and> 1 \<le> rows \<and> N \<le> cols * rows
       \<and> (N - 1) div cols = rows - 1
       \<and> (0 \<le> W - (real cols + 1) * g \<longrightarrow> g + real (cols - 1) * (cw + g) + cw + g = W)
       \<and> (0 \<le> H - (real rows + 1) * g \<longrightarrow> g + real (rows - 1) * (ch + g) + ch + g = H)"
proof -
  have lc: "layout_cols (length imgs) = cols"
    unfolding cols_def N_def by (rule layout_cols_unclamped [OF N])
  have lr: "layout_rows (length imgs) = rows"
    unfolding rows_def lc [symmetric] N_def by (rule layout_rows_unclamped [OF N])
  have g: "grid_case W H g g imgs = cells"
    unfolding cells_def cw_def ch_def rows_def cols_def N_def
    by (rule grid_case_unclamped_counts [OF N])
  have ne: "imgs \<noteq> []" using N by auto
  have e: "export_layout Grid W H g g z imgs = cells"
    using ne g by simp
  have a: "app_layout Grid W H g g s = cells"
    using ne g loaded by simp
  have u: "ui_layout Grid W H g z imgs = Inr cells"
    using g by simp
  have c1: "1 \<le> cols" using layout_cols_pos [of "length imgs"] lc by simp
  have r1: "1 \<le> rows" using layout_rows_pos [of "length imgs"] lr by simp
  have cn: "cols \<le> N" using layout_cols_le [OF N] lc by (simp add: N_def)
  have en: "N \<le> cols * rows" using layout_cells_enough [of "length imgs"] lc lr by (simp add: N_def)
  have lastrow: "(N - 1) div cols = rows - 1"
    using last_row_used [OF N] lc lr by (simp add: N_def)
  have cpos: "0 < real cols" using c1 by simp
  have rpos: "0 < real rows" using r1 by simp
  have wr: "g + real (cols - 1) * (cw + g) + cw + g = W" if "0 \<le> W - (real cols + 1) * g"
  proof -
    have "cw = (W - (real cols + 1) * g) / real cols"
      using that cpos by (simp add: cw_def)
    then have "real cols * cw = W - (real cols + 1) * g" using cpos by simp
    moreover have "real (cols - 1) = real cols - 1" using c1 by (simp add: of_nat_diff)
    ultimately show ?thesis by (simp add: algebra_simps)
  qed
  have hr: "g + real (rows - 1) * (ch + g) + ch + g = H" if "0 \<le> H - (real rows + 1) * g"
  proof -
    have "ch = (H - (real rows + 1) * g) / real rows"
      using that rpos by (simp add: ch_def)
    then have "real rows * ch = H - (real rows + 1) * g" using rpos by simp
    moreover have "real (rows - 1) = real rows - 1" using r1 by (simp add: of_nat_diff)
    ultimately show ?thesis by (simp add: algebra_simps)
  qed
  from e a u c1 cn r1 en lastrow wr hr show ?thesis by blast
qed

theorem grid_layout_witness:
  "export_layout Grid 800 600 16 16 1 [bmp 0, bmp 1, bmp 2, bmp 3] =
     [Cell (bmp 0) \<lparr>rect_x = 16, rect_y = 16, rect_w = 376, rect_h = 276\<rparr> 1,
      Cell (bmp 1) \<lparr>rect_x = 408, rect_y = 16, rect_w = 376, rect_h = 276\<rparr> 1,
      Cell (bmp 2) \<lparr>rect_x = 16, rect_y = 308, rect_w = 376, rect_h = 276\<rparr> 1,
      Cell (bmp 3) \<lparr>rect_x = 408, rect_y = 308, rect_w = 376, rect_h = 276\<rparr> 1]
   \<and> app_layout Grid 800 600 16 16 four_images =
       export_layout Grid 800 600 16 16 1 [bmp 0, bmp 1, bmp 2, bmp 3]
   \<and> nat \<lceil>sqrt (real (length [bmp 0, bmp 1, bmp 2, bmp 3]))\<rceil> = 2"
proof -
  have N: "1 \<le> length [bmp 0, bmp 1, bmp 2, bmp 3]" by simp
  have up: "[0..<4] = [0, 1, 2, 3]" by (simp add: upt_rec)
  show ?thesis
    using grid_layout [OF N loaded_four, of 800 600 16 1]
    by (simp add: up)
qed

section \<open>The snap search\<close>

lemma snap_step_cases:
  "snap_step n (best, s, g) t =
     (if \<bar>t - n\<bar> < best \<and> \<bar>t - n\<bar> \<le> thresh then (\<bar>t - n\<bar>, t, Some t) else (best, s, g))"
  by (simp add: snap_step_def Let_def)

lemma snap_inv_step:
  assumes "snap_inv n seen st"
  shows "snap_inv n (seen @ [t]) (snap_step n st t)"
proof -
  obtain best s g where st: "st = (best, s, g)" by (cases st)
  from assms show ?thesis
    unfolding st snap_inv_def snap_step_cases
    by (auto simp: list_all_iff)
qed

lemma snap_inv_foldl:
  "snap_inv n seen st \<Longrightarrow> snap_inv n (seen @ cs) (foldl (snap_step n) st cs)"
proof (induction cs arbitrary: seen st)
  case Nil
  then show ?case by simp
next
  case (Cons t cs)
  from Cons.IH [OF snap_inv_step [OF Cons.prems, of t]] show ?case by simp
qed

lemma snap_axis_inv: "snap_inv n cs (snap_axis n cs)"
proof -
  have "snap_inv n [] (thresh + 1, n, None)" by (simp add: snap_inv_def)
  from snap_inv_foldl [OF this, of cs] show ?thesis by (simp add: snap_axis_def)
qed

lemma snap_axis_result:
  assumes "snap_axis n cs = (best, s, g)"
  shows "(g = None \<and> s = n \<and> (\<forall>t\<in>set cs. thresh < \<bar>t - n\<bar>)) \<or>
         (g = Some s \<and> s \<in> set cs \<and> \<bar>s - n\<bar> \<le> thresh \<and> (\<forall>t\<in>set cs. \<bar>s - n\<bar> \<le> \<bar>t - n\<bar>))"
  using snap_axis_inv [of n cs] unfolding assms snap_inv_def
  by (auto simp: list_all_iff)

lemma getSnapped_axes:
  "snap_x (getSnapped cfg nx ny False) = fst (snd (snap_axis nx (candX cfg nx)))"
  "snap_y (getSnapped cfg nx ny False) = fst (snd (snap_axis ny (candY cfg ny)))"
  "guidesX (getSnapped cfg nx ny False) = guide_list (snd (snd (snap_axis nx (candX cfg nx))))"
  "guidesY (getSnapped cfg nx ny False) = guide_list (snd (snd (snap_axis ny (candY cfg ny))))"
  by (simp_all add: getSnapped_def split: prod.splits)

lemma getSnapped_ignore:
  "getSnapped cfg nx ny True = \<lparr> snap_x = nx, snap_y = ny, guidesX = [], guidesY = [] \<rparr>"
  by (simp add: getSnapped_def)

lemma snap_axis_hit:
  assumes "t \<in> set cs" and "\<bar>t - n\<bar> \<le> thresh"
  shows "fst (snd (snap_axis n cs)) \<in> set cs
       \<and> \<bar>fst (snd (snap_axis n cs)) - n\<bar> \<le> thresh
       \<and> (\<forall>u\<in>set cs. \<bar>fst (snd (snap_axis n cs)) - n\<bar> \<le> \<bar>u - n\<bar>)
       \<and> guide_list (snd (snd (snap_axis n cs))) = [fst (snd (snap_axis n cs))]"
proof -
  obtain best s g where r: "snap_axis n cs = (best, s, g)" by (cases "snap_axis n cs")
  from snap_axis_result [OF r] assms show ?thesis
    unfolding r by (auto simp: guide_list_def)
qed

lemma snap_axis_miss:
  assumes "\<forall>t\<in>set cs. thresh < \<bar>t - n\<bar>"
  shows "fst (snd (snap_axis n cs)) = n \<and> guide_list (snd (snd (snap_axis n cs))) = []"
proof -
  obtain best s g where r: "snap_axis n cs = (best, s, g)" by (cases "snap_axis n cs")
  from snap_axis_result [OF r] assms show ?thesis
    unfolding r by (fastforce simp: guide_list_def)
qed

lemma snap_axis_close:
  "\<bar>fst (snd (snap_axis n cs)) - n\<bar> \<le> thresh \<and> length (guide_list (snd (snd (snap_axis n cs)))) \<le> 1"
proof -
  obtain best s g where r: "snap_axis n cs = (best, s, g)" by (cases "snap_axis n cs")
  from snap_axis_result [OF r] show ?thesis
    unfolding r by (auto simp: guide_list_def thresh_def)
qed

lemma js_round_of_int: "js_round (of_int k) = of_int k"
proof -
  have "\<lfloor>of_int k + (1 / 2 :: real)\<rfloor> = k" by linarith
  then show ?thesis by (simp add: js_round_def)
qed

lemma grid_candidate_fixed:
  "s \<in> set (grid_candidate n gsize) \<Longrightarrow> s \<in> set (grid_candidate s gsize)"
proof -
  assume a: "s \<in> set (grid_candidate n gsize)"
  then have g: "gsize \<noteq> 0" and s: "s = js_round (n / gsize) * gsize"
    by (auto simp: grid_candidate_def split: if_splits)
  obtain k :: int where k: "js_round (n / gsize) = of_int k"
    by (auto simp: js_round_def)
  have "s / gsize = of_int k" using g s k by simp
  then have "js_round (s / gsize) * gsize = s" using s k by (simp add: js_round_of_int)
  then show ?thesis using g by (simp add: grid_candidate_def)
qed

lemma candX_fixed: "s \<in> set (candX cfg n) \<Longrightarrow> s \<in> set (candX cfg s)"
  using grid_candidate_fixed [of s n "gridSize cfg"]
  by (auto simp: candX_def split: if_splits)

lemma candY_fixed: "s \<in> set (candY cfg n) \<Longrightarrow> s \<in> set (candY cfg s)"
  using grid_candidate_fixed [of s n "gridSize cfg"]
  by (auto simp: candY_def split: if_splits)

lemma snap_axis_idem:
  assumes fixed: "\<And>s. s \<in> set (cands n) \<Longrightarrow> s \<in> set (cands s)"
  shows "fst (snd (snap_axis (fst (snd (snap_axis n (cands n)))) (cands (fst (snd (snap_axis n (cands n)))))))
         = fst (snd (snap_axis n (cands n)))"
proof -
  obtain best s g where r: "snap_axis n (cands n) = (best, s, g)" by (cases "snap_axis n (cands n)")
  from snap_axis_result [OF r]
  show ?thesis
  proof
    assume "g = None \<and> s = n \<and> (\<forall>t\<in>set (cands n). thresh < \<bar>t - n\<bar>)"
    then show ?thesis by (simp add: r)
  next
    assume "g = Some s \<and> s \<in> set (cands n) \<and> \<bar>s - n\<bar> \<le> thresh \<and> (\<forall>t\<in>set (cands n). \<bar>s - n\<bar> \<le> \<bar>t - n\<bar>)"
    then have m: "s \<in> set (cands s)" using fixed by blast
    have "\<bar>s - s\<bar> \<le> thresh" by (simp add: thresh_def)
    from snap_axis_hit [OF m this]
    have "\<bar>fst (snd (snap_axis s (cands s))) - s\<bar> \<le> \<bar>s - s\<bar>" using m by blast
    then have "fst (snd (snap_axis s (cands s))) = s" by simp
    then show ?thesis by (simp add: r)
  qed
qed

lemma js_round_nearest: "\<bar>js_round v - v\<bar> \<le> \<bar>of_int k - v\<bar>"
proof -
  define f where "f = \<lfloor>v + 1 / 2\<rfloor>"
  have lo: "real_of_int f \<le> v + 1 / 2" unfolding f_def by (rule of_int_floor_le)
  have hi: "v + 1 / 2 < real_of_int f + 1" unfolding f_def by linarith
  consider "k = f" | "f + 1 \<le> k" | "k \<le> f - 1" by linarith
  then show ?thesis
  proof cases
    case 1
    then show ?thesis by (simp add: js_round_def f_def)
  next
    case 2
    then have "real_of_int f + 1 \<le> real_of_int k"
      by (metis of_int_le_iff of_int_add of_int_1)
    with lo hi show ?thesis unfolding js_round_def f_def [symmetric] by linarith
  next
    case 3
    then have "real_of_int k \<le> real_of_int f - 1"
      by (metis of_int_le_iff of_int_diff of_int_1)
    with lo hi show ?thesis unfolding js_round_def f_def [symmetric] by linarith
  qed
qed

lemma grid_candidate_nearest:
  assumes "gsize \<noteq> 0"
  shows "\<bar>js_round (n / gsize) * gsize - n\<bar> \<le> \<bar>of_int k * gsize - n\<bar>"
proof -
  have "\<bar>js_round (n / gsize) * gsize - n\<bar> = \<bar>js_round (n / gsize) - n / gsize\<bar> * \<bar>gsize\<bar>"
    using assms by (simp add: abs_mult [symmetric] left_diff_distrib)
  also have "\<dots> \<le> \<bar>of_int k - n / gsize\<bar> * \<bar>gsize\<bar>"
    by (intro mult_right_mono js_round_nearest) simp
  also have "\<dots> = \<bar>of_int k * gsize - n\<bar>"
    using assms by (simp add: abs_mult [symmetric] left_diff_distrib)
  finally show ?thesis .
qed

text \<open>
  The candidates of the two axes as sets: the canvas edges and centre always; the
  pixel-grid line nearest to the raw coordinate when \<open>snapGrid\<close> is on (and the grid size
  is not zero); the left, middle and right of every cell column (top, middle and bottom
  of every cell row) when the cell overlay is on with positive row and column counts;
  the centres of the items other than the dragged one when \<open>snapSmart\<close> is on and there
  is more than one item.
\<close>

lemma set_loop_range: "set (loop_range m) = {..<nat \<lceil>m\<rceil>}"
  by (simp add: loop_range_def lessThan_atLeast0)

lemma loop_range_nonempty:
  assumes "0 < m"
  shows "{..<nat \<lceil>m\<rceil>} \<noteq> {}"
proof -
  from assms have "0 < \<lceil>m\<rceil>" by (simp add: zero_less_ceiling)
  then have "0 < nat \<lceil>m\<rceil>" by simp
  then have "0 \<in> {..<nat \<lceil>m\<rceil>}" by simp
  then show ?thesis by blast
qed

lemma set_cell_candidates_x:
  assumes "0 < cell_rows cfg"
  shows "set (cell_candidates_x cfg) =
     (\<Union>c\<in>{..<nat \<lceil>cell_cols cfg\<rceil>}.
        {cellGapX cfg + real c * ((size_w cfg - (cell_cols cfg + 1) * cellGapX cfg) / cell_cols cfg
                                  + cellGapX cfg),
         cellGapX cfg + real c * ((size_w cfg - (cell_cols cfg + 1) * cellGapX cfg) / cell_cols cfg
                                  + cellGapX cfg)
           + (size_w cfg - (cell_cols cfg + 1) * cellGapX cfg) / cell_cols cfg / 2,
         cellGapX cfg + real c * ((size_w cfg - (cell_cols cfg + 1) * cellGapX cfg) / cell_cols cfg
                                  + cellGapX cfg)
           + (size_w cfg - (cell_cols cfg + 1) * cellGapX cfg) / cell_cols cfg})"
  using loop_range_nonempty [OF assms]
  by (simp add: cell_candidates_x_def Let_def set_loop_range)

lemma set_cell_candidates_y:
  assumes "0 < cell_cols cfg"
  shows "set (cell_candidates_y cfg) =
     (\<Union>r\<in>{..<nat \<lceil>cell_rows cfg\<rceil>}.
        {cellGapY cfg + real r * ((size_h cfg - (cell_rows cfg + 1) * cellGapY cfg) / cell_rows cfg
                                  + cellGapY cfg),
         cellGapY cfg + real r * ((size_h cfg - (cell_rows cfg + 1) * cellGapY cfg) / cell_rows cfg
                                  + cellGapY cfg)
           + (size_h cfg - (cell_rows cfg + 1) * cellGapY cfg) / cell_rows cfg / 2,
         cellGapY cfg + real r * ((size_h cfg - (cell_rows cfg + 1) * cellGapY cfg) / cell_rows cfg
                                  + cellGapY cfg)
           + (size_h cfg - (cell_rows cfg + 1) * cellGapY cfg) / cell_rows cfg})"
  using loop_range_nonempty [OF assms]
  by (simp add: cell_candidates_y_def Let_def set_loop_range)

lemma set_other_items:
  "set (other_items cfg) = {it \<in> set (items cfg). Some (item_id it) \<noteq> activeId cfg}"
  by (simp add: other_items_def)

lemma set_grid_candidate:
  "set (grid_candidate n gsize) =
     (if gsize \<noteq> 0 then {real_of_int \<lfloor>n / gsize + 1 / 2\<rfloor> * gsize} else {})"
  by (simp add: grid_candidate_def js_round_def)

lemma set_candX:
  "set (candX cfg nx) =
     {0, size_w cfg / 2, size_w cfg}
     \<union> (if snapGrid cfg \<and> gridSize cfg \<noteq> 0
        then {real_of_int \<lfloor>nx / gridSize cfg + 1 / 2\<rfloor> * gridSize cfg} else {})
     \<union> (if showCells cfg \<and> 0 < cell_rows cfg \<and> 0 < cell_cols cfg
        then (\<Union>c\<in>{..<nat \<lceil>cell_cols cfg\<rceil>}.
          {cellGapX cfg + real c * ((size_w cfg - (cell_cols cfg + 1) * cellGapX cfg) / cell_cols cfg
                                    + cellGapX cfg),
           cellGapX cfg + real c * ((size_w cfg - (cell_cols cfg + 1) * cellGapX cfg) / cell_cols cfg
                                    + cellGapX cfg)
             + (size_w cfg - (cell_cols cfg + 1) * cellGapX cfg) / cell_cols cfg / 2,
           cellGapX cfg + real c * ((size_w cfg - (cell_cols cfg + 1) * cellGapX cfg) / cell_cols cfg
                                    + cellGapX cfg)
             + (size_w cfg - (cell_cols cfg + 1) * cellGapX cfg) / cell_cols cfg})
        else {})
     \<union> (if snapSmart cfg \<and> 1 < length (items cfg)
        then item_x ` {it \<in> set (items cfg). Some (item_id it) \<noteq> activeId cfg} else {})"
proof -
  have c: "set (if showCells cfg \<and> cell_rows cfg > 0 \<and> cell_cols cfg > 0
                then cell_candidates_x cfg else []) =
     (if showCells cfg \<and> 0 < cell_rows cfg \<and> 0 < cell_cols cfg
        then (\<Union>c\<in>{..<nat \<lceil>cell_cols cfg\<rceil>}.
          {cellGapX cfg + real c * ((size_w cfg - (cell_cols cfg + 1) * cellGapX cfg) / cell_cols cfg
                                    + cellGapX cfg),
           cellGapX cfg + real c * ((size_w cfg - (cell_cols cfg + 1) * cellGapX cfg) / cell_cols cfg
                                    + cellGapX cfg)
             + (size_w cfg - (cell_cols cfg + 1) * cellGapX cfg) / cell_cols cfg / 2,
           cellGapX cfg + real c * ((size_w cfg - (cell_cols cfg + 1) * cellGapX cfg) / cell_cols cfg
                                    + cellGapX cfg)
             + (size_w cfg - (cell_cols cfg + 1) * cellGapX cfg) / cell_cols cfg})
        else {})"
  proof (cases "showCells cfg \<and> 0 < cell_rows cfg \<and> 0 < cell_cols cfg")
    case True
    then have "0 < cell_rows cfg" by simp
    from set_cell_candidates_x [OF this] True show ?thesis by (simp only: if_True simp_thms)
  next
    case False
    then show ?thesis by (simp only: if_False list.set)
  qed
  have g: "set (if snapGrid cfg then grid_candidate nx (gridSize cfg) else []) =
     (if snapGrid cfg \<and> gridSize cfg \<noteq> 0
        then {real_of_int \<lfloor>nx / gridSize cfg + 1 / 2\<rfloor> * gridSize cfg} else {})"
    by (simp add: set_grid_candidate)
  have o: "set (if snapSmart cfg \<and> length (items cfg) > 1 then map item_x (other_items cfg) else [])
     = (if snapSmart cfg \<and> 1 < length (items cfg)
        then item_x ` {it \<in> set (items cfg). Some (item_id it) \<noteq> activeId cfg} else {})"
    by (simp only: set_other_items set_map list.set split: if_split) blast
  show ?thesis
    unfolding candX_def set_append c g o by (simp add: Un_assoc)
qed

lemma set_candY:
  "set (candY cfg ny) =
     {0, size_h cfg / 2, size_h cfg}
     \<union> (if snapGrid cfg \<and> gridSize cfg \<noteq> 0
        then {real_of_int \<lfloor>ny / gridSize cfg + 1 / 2\<rfloor> * gridSize cfg} else {})
     \<union> (if showCells cfg \<and> 0 < cell_rows cfg \<and> 0 < cell_cols cfg
        then (\<Union>r\<in>{..<nat \<lceil>cell_rows cfg\<rceil>}.
          {cellGapY cfg + real r * ((size_h cfg - (cell_rows cfg + 1) * cellGapY cfg) / cell_rows cfg
                                    + cellGapY cfg),
           cellGapY cfg + real r * ((size_h cfg - (cell_rows cfg + 1) * cellGapY cfg) / cell_rows cfg
                                    + cellGapY cfg)
             + (size_h cfg - (cell_rows cfg + 1) * cellGapY cfg) / cell_rows cfg / 2,
           cellGapY cfg + real r * ((size_h cfg - (cell_rows cfg + 1) * cellGapY cfg) / cell_rows cfg
                                    + cellGapY cfg)
             + (size_h cfg - (cell_rows cfg + 1) * cellGapY cfg) / cell_rows cfg})
        else {})
     \<union> (if snapSmart cfg \<and> 1 < length (items cfg)
        then item_y ` {it \<in> set (items cfg). Some (item_id it) \<noteq> activeId cfg} else {})"
proof -
  have c: "set (if showCells cfg \<and> cell_rows cfg > 0 \<and> cell_cols cfg > 0
                then cell_candidates_y cfg else []) =
     (if showCells cfg \<and> 0 < cell_rows cfg \<and> 0 < cell_cols cfg
        then (\<Union>r\<in>{..<nat \<lceil>cell_rows cfg\<rceil>}.
          {cellGapY cfg + real r * ((size_h cfg - (cell_rows cfg + 1) * cellGapY cfg) / cell_rows cfg
                                    + cellGapY cfg),
           cellGapY cfg + real r * ((size_h cfg - (cell_rows cfg + 1) * cellGapY cfg) / cell_rows cfg
                                    + cellGapY cfg)
             + (size_h cfg - (cell_rows cfg + 1) * cellGapY cfg) / cell_rows cfg / 2,
           cellGapY cfg + real r * ((size_h cfg - (cell_rows cfg + 1) * cellGapY cfg) / cell_rows cfg
                                    + cellGapY cfg)
             + (size_h cfg - (cell_rows cfg + 1) * cellGapY cfg) / cell_rows cfg})
        else {})"
  proof (cases "showCells cfg \<and> 0 < cell_rows cfg \<and> 0 < cell_cols cfg")
    case True
    then have "0 < cell_cols cfg" by simp
    from set_cell_candidates_y [OF this] True show ?thesis by (simp only: if_True simp_thms)
  next
    case False
    then show ?thesis by (simp only: if_False list.set)
  qed
  have g: "set (if snapGrid cfg then grid_candidate ny (gridSize cfg) else []) =
     (if snapGrid cfg \<and> gridSize cfg \<noteq> 0
        then {real_of_int \<lfloor>ny / gridSize cfg + 1 / 2\<rfloor> * gridSize cfg} else {})"
    by (simp add: set_grid_candidate)
  have o: "set (if snapSmart cfg \<and> length (items cfg) > 1 then map item_y (other_items cfg) else [])
     = (if snapSmart cfg \<and> 1 < length (items cfg)
        then item_y ` {it \<in> set (items cfg). Some (item_id it) \<noteq> activeId cfg} else {})"
    by (simp only: set_other_items set_map list.set split: if_split) blast
  show ?thesis
    unfolding candY_def set_append c g o by (simp add: Un_assoc)
qed

lemma example_candX: "candX example_snap 395 = [0, 400, 800, 400, 610]"
  by (simp add: candX_def example_snap_def grid_candidate_def js_round_def other_items_def)

lemma example_candY: "candY example_snap 300 = [0, 400, 800, 320, 130]"
  by (simp add: candY_def example_snap_def grid_candidate_def js_round_def other_items_def)

lemma loop_range_simps: "loop_range 2 = [0, 1]" "loop_range 3 = [0, 1, 2]"
  by (simp_all add: loop_range_def upt_rec)

lemma example_cells_candX:
  "candX example_cells nx =
     [0, 392, 784, 16, 136, 256, 272, 392, 512, 528, 648, 768,
      16, 136, 256, 272, 392, 512, 528, 648, 768]"
  by (simp add: candX_def example_cells_def cell_candidates_x_def loop_range_simps Let_def)

lemma example_cells_candY:
  "candY example_cells ny =
     [0, 400, 800, 16, 204, 392, 16, 204, 392, 16, 204, 392,
      408, 596, 784, 408, 596, 784, 408, 596, 784]"
  by (simp add: candY_def example_cells_def cell_candidates_y_def loop_range_simps Let_def)

lemma example_off_candX: "candX example_off nx = [0, 392, 784]"
  by (simp add: candX_def example_off_def example_cells_def)

lemma example_off_candY: "candY example_off ny = [0, 400, 800]"
  by (simp add: candY_def example_off_def example_cells_def)

text \<open>
  C2, as stated, fails on the candidates, which are not always drawn from the grid lines
  and the other items' centres, and on the drag frames, which do not always run the
  search. With the cell overlay on and the toggles \<open>snapGrid\<close> and \<open>snapSmart\<close> off, the
  raw x = 45 stays raw although the grid line 40 and the centre 50 of the other item are
  5 pixels away. With all three toggles off the search would move x = 391 to the canvas
  centre 392, one pixel away, but the drag handler does not run it and keeps 391.
\<close>

theorem snap_ignores_disabled_candidates:
  "getSnapped example_cells 45 300 False
     = \<lparr> snap_x = 45, snap_y = 300, guidesX = [], guidesY = [] \<rparr>
   \<and> drag_position example_cells 45 300 0 0 False = (45, 300)
   \<and> \<bar>1 * gridSize example_cells - 45\<bar> = 5
   \<and> map item_x (other_items example_cells) = [50]
   \<and> \<bar>50 - 45\<bar> \<le> thresh
   \<and> getSnapped example_off 391 300 False
     = \<lparr> snap_x = 392, snap_y = 300, guidesX = [392], guidesY = [] \<rparr>
   \<and> drag_position example_off 391 300 0 0 False = (391, 300)"
  by (simp add: drag_position_def example_cells_candX example_cells_candY example_off_candX
      example_off_candY getSnapped_def snap_axis_def snap_step_def thresh_def guide_list_def
      other_items_def)
     (simp add: example_cells_def example_off_def)

text \<open>
  C2, amended. The snap search treats the two axes independently. The candidates of an
  axis are the canvas edges and centre; the pixel-grid line nearest to the raw coordinate
  only when \<open>snapGrid\<close> is on; the cell edges and centres only when the cell overlay is on
  (with positive row and column counts); the centres of the other items only when
  \<open>snapSmart\<close> is on and there is more than one item. With the Alt key held
  (\<open>ignoreSnap\<close>) the search returns the raw position and no guide, and so does the drag
  handler. Otherwise, on each axis: when some candidate of that axis lies within 8 pixels
  of the raw coordinate, the result is a candidate within 8 pixels to which no candidate
  is nearer, and it is the one guide of that axis; when every candidate is farther than
  8 pixels, the coordinate stays raw and the axis has no guide. The X result does not
  depend on the raw Y and conversely. With \<open>snapGrid\<close> on, no pixel-grid line within the
  threshold is nearer than the result. The drag handler passes the raw position through
  the search when one of the three toggles (\<open>snapSmart\<close>, \<open>snapGrid\<close>, cell overlay) is
  on, and keeps the raw position when all three are off.
\<close>

theorem snap_nearest_per_axis:
  fixes cfg :: snap_config and nx ny nx' ny' px py dx dy cellW cellH :: real
    and cellX cellY :: "nat \<Rightarrow> real"
  defines "r \<equiv> getSnapped cfg nx ny False"
    and "cellW \<equiv> (size_w cfg - (cell_cols cfg + 1) * cellGapX cfg) / cell_cols cfg"
    and "cellH \<equiv> (size_h cfg - (cell_rows cfg + 1) * cellGapY cfg) / cell_rows cfg"
    and "cellX \<equiv> \<lambda>c. cellGapX cfg + real c * (cellW + cellGapX cfg)"
    and "cellY \<equiv> \<lambda>r. cellGapY cfg + real r * (cellH + cellGapY cfg)"
  shows
    "set (candX cfg nx) =
       {0, size_w cfg / 2, size_w cfg}
       \<union> (if snapGrid cfg \<and> gridSize cfg \<noteq> 0
          then {real_of_int \<lfloor>nx / gridSize cfg + 1 / 2\<rfloor> * gridSize cfg} else {})
       \<union> (if showCells cfg \<and> 0 < cell_rows cfg \<and> 0 < cell_cols cfg
          then (\<Union>c\<in>{..<nat \<lceil>cell_cols cfg\<rceil>}. {cellX c, cellX c + cellW / 2, cellX c + cellW})
          else {})
       \<union> (if snapSmart cfg \<and> 1 < length (items cfg)
          then item_x ` {it \<in> set (items cfg). Some (item_id it) \<noteq> activeId cfg} else {})
     \<and> set (candY cfg ny) =
       {0, size_h cfg / 2, size_h cfg}
       \<union> (if snapGrid cfg \<and> gridSize cfg \<noteq> 0
          then {real_of_int \<lfloor>ny / gridSize cfg + 1 / 2\<rfloor> * gridSize cfg} else {})
       \<union> (if showCells cfg \<and> 0 < cell_rows cfg \<and> 0 < cell_cols cfg
          then (\<Union>r\<in>{..<nat \<lceil>cell_rows cfg\<rceil>}. {cellY r, cellY r + cellH / 2, cellY r + cellH})
          else {})
       \<union> (if snapSmart cfg \<and> 1 < length (items cfg)
          then item_y ` {it \<in> set (items cfg). Some (item_id it) \<noteq> activeId cfg} else {})
     \<and> getSnapped cfg nx ny True = \<lparr> snap_x = nx, snap_y = ny, guidesX = [], guidesY = [] \<rparr>
     \<and> drag_position cfg px py dx dy True = (px - dx, py - dy)
     \<and> ((\<exists>t\<in>set (candX cfg nx). \<bar>t - nx\<bar> \<le> 8) \<longrightarrow>
          snap_x r \<in> set (candX cfg nx) \<and> \<bar>snap_x r - nx\<bar> \<le> 8 \<and>
          (\<forall>t\<in>set (candX cfg nx). \<bar>snap_x r - nx\<bar> \<le> \<bar>t - nx\<bar>) \<and> guidesX r = [snap_x r])
     \<and> ((\<forall>t\<in>set (candX cfg nx). 8 < \<bar>t - nx\<bar>) \<longrightarrow> snap_x r = nx \<and> guidesX r = [])
     \<and> ((\<exists>t\<in>set (candY cfg ny). \<bar>t - ny\<bar> \<le> 8) \<longrightarrow>
          snap_y r \<in> set (candY cfg ny) \<and> \<bar>snap_y r - ny\<bar> \<le> 8 \<and>
          (\<forall>t\<in>set (candY cfg ny). \<bar>snap_y r - ny\<bar> \<le> \<bar>t - ny\<bar>) \<and> guidesY r = [snap_y r])
     \<and> ((\<forall>t\<in>set (candY cfg ny). 8 < \<bar>t - ny\<bar>) \<longrightarrow> snap_y r = ny \<and> guidesY r = [])
     \<and> snap_x (getSnapped cfg nx ny' False) = snap_x r
     \<and> snap_y (getSnapped cfg nx' ny False) = snap_y r
     \<and> (snapGrid cfg \<and> gridSize cfg \<noteq> 0 \<longrightarrow>
          (\<forall>k::int. \<bar>of_int k * gridSize cfg - nx\<bar> \<le> 8 \<longrightarrow>
                     \<bar>snap_x r - nx\<bar> \<le> \<bar>of_int k * gridSize cfg - nx\<bar>) \<and>
          (\<forall>k::int. \<bar>of_int k * gridSize cfg - ny\<bar> \<le> 8 \<longrightarrow>
                     \<bar>snap_y r - ny\<bar> \<le> \<bar>of_int k * gridSize cfg - ny\<bar>))
     \<and> (snapSmart cfg \<or> snapGrid cfg \<or> showCells cfg \<longrightarrow>
          drag_position cfg px py dx dy False =
            (snap_x (getSnapped cfg (px - dx) (py - dy) False),
             snap_y (getSnapped cfg (px - dx) (py - dy) False)))
     \<and> (\<not> (snapSmart cfg \<or> snapGrid cfg \<or> showCells cfg) \<longrightarrow>
          drag_position cfg px py dx dy False = (px - dx, py - dy))"
    (is "?cx \<and> ?cy \<and> ?search")
proof -
  have on: "drag_position cfg px py dx dy False =
            (snap_x (getSnapped cfg (px - dx) (py - dy) False),
             snap_y (getSnapped cfg (px - dx) (py - dy) False))"
    if "snapSmart cfg \<or> snapGrid cfg \<or> showCells cfg"
    using that by (auto simp: drag_position_def Let_def)
  have off: "drag_position cfg px py dx dy False = (px - dx, py - dy)"
    if "\<not> (snapSmart cfg \<or> snapGrid cfg \<or> showCells cfg)"
    using that by (simp add: drag_position_def Let_def)
  have alt: "getSnapped cfg nx ny True = \<lparr> snap_x = nx, snap_y = ny, guidesX = [], guidesY = [] \<rparr>"
    by (rule getSnapped_ignore)
  have drag: "drag_position cfg px py dx dy True = (px - dx, py - dy)"
    by (simp add: drag_position_def getSnapped_ignore Let_def)
  have xhit: "snap_x r \<in> set (candX cfg nx) \<and> \<bar>snap_x r - nx\<bar> \<le> 8 \<and>
          (\<forall>t\<in>set (candX cfg nx). \<bar>snap_x r - nx\<bar> \<le> \<bar>t - nx\<bar>) \<and> guidesX r = [snap_x r]"
    if "\<exists>t\<in>set (candX cfg nx). \<bar>t - nx\<bar> \<le> 8"
  proof -
    from that obtain t where "t \<in> set (candX cfg nx)" "\<bar>t - nx\<bar> \<le> thresh"
      by (auto simp: thresh_def)
    from snap_axis_hit [OF this] show ?thesis
      by (simp add: r_def getSnapped_axes thresh_def)
  qed
  have xmiss: "snap_x r = nx \<and> guidesX r = []" if "\<forall>t\<in>set (candX cfg nx). 8 < \<bar>t - nx\<bar>"
    using snap_axis_miss [of "candX cfg nx" nx] that
    by (simp add: r_def getSnapped_axes thresh_def)
  have yhit: "snap_y r \<in> set (candY cfg ny) \<and> \<bar>snap_y r - ny\<bar> \<le> 8 \<and>
          (\<forall>t\<in>set (candY cfg ny). \<bar>snap_y r - ny\<bar> \<le> \<bar>t - ny\<bar>) \<and> guidesY r = [snap_y r]"
    if "\<exists>t\<in>set (candY cfg ny). \<bar>t - ny\<bar> \<le> 8"
  proof -
    from that obtain t where "t \<in> set (candY cfg ny)" "\<bar>t - ny\<bar> \<le> thresh"
      by (auto simp: thresh_def)
    from snap_axis_hit [OF this] show ?thesis
      by (simp add: r_def getSnapped_axes thresh_def)
  qed
  have ymiss: "snap_y r = ny \<and> guidesY r = []" if "\<forall>t\<in>set (candY cfg ny). 8 < \<bar>t - ny\<bar>"
    using snap_axis_miss [of "candY cfg ny" ny] that
    by (simp add: r_def getSnapped_axes thresh_def)
  have ix: "snap_x (getSnapped cfg nx ny' False) = snap_x r"
    by (simp add: r_def getSnapped_axes)
  have iy: "snap_y (getSnapped cfg nx' ny False) = snap_y r"
    by (simp add: r_def getSnapped_axes)
  have gx: "\<bar>snap_x r - nx\<bar> \<le> \<bar>of_int k * gridSize cfg - nx\<bar>"
    if g: "snapGrid cfg" "gridSize cfg \<noteq> 0" and k: "\<bar>of_int k * gridSize cfg - nx\<bar> \<le> 8" for k :: int
  proof -
    let ?c = "js_round (nx / gridSize cfg) * gridSize cfg"
    have m: "?c \<in> set (candX cfg nx)" using g by (simp add: candX_def grid_candidate_def)
    have near: "\<bar>?c - nx\<bar> \<le> \<bar>of_int k * gridSize cfg - nx\<bar>"
      by (rule grid_candidate_nearest [OF g(2)])
    then have "\<exists>t\<in>set (candX cfg nx). \<bar>t - nx\<bar> \<le> 8" using m k by (intro bexI [of _ ?c]) auto
    from xhit [OF this] m have "\<bar>snap_x r - nx\<bar> \<le> \<bar>?c - nx\<bar>" by blast
    with near show ?thesis by linarith
  qed
  have gy: "\<bar>snap_y r - ny\<bar> \<le> \<bar>of_int k * gridSize cfg - ny\<bar>"
    if g: "snapGrid cfg" "gridSize cfg \<noteq> 0" and k: "\<bar>of_int k * gridSize cfg - ny\<bar> \<le> 8" for k :: int
  proof -
    let ?c = "js_round (ny / gridSize cfg) * gridSize cfg"
    have m: "?c \<in> set (candY cfg ny)" using g by (simp add: candY_def grid_candidate_def)
    have near: "\<bar>?c - ny\<bar> \<le> \<bar>of_int k * gridSize cfg - ny\<bar>"
      by (rule grid_candidate_nearest [OF g(2)])
    then have "\<exists>t\<in>set (candY cfg ny). \<bar>t - ny\<bar> \<le> 8" using m k by (intro bexI [of _ ?c]) auto
    from yhit [OF this] m have "\<bar>snap_y r - ny\<bar> \<le> \<bar>?c - ny\<bar>" by blast
    with near show ?thesis by linarith
  qed
  from alt drag xhit xmiss yhit ymiss ix iy gx gy on off have search: ?search by blast
  have cx: ?cx unfolding cellX_def cellW_def by (rule set_candX)
  have cy: ?cy unfolding cellY_def cellH_def by (rule set_candY)
  from cx cy search show ?thesis by (rule conjI [OF _ conjI])
qed

lemma example_toggles:
  "snapGrid example_snap" "gridSize example_snap = 40" "snapSmart example_snap"
  "showCells example_cells" "cell_rows example_cells = 2" "cell_cols example_cells = 3"
  "\<not> snapSmart example_off" "\<not> snapGrid example_off" "\<not> showCells example_off"
  by (simp_all add: example_snap_def example_cells_def example_off_def)

theorem snap_nearest_per_axis_witness:
  "getSnapped example_snap 395 300 False
     = \<lparr> snap_x = 400, snap_y = 300, guidesX = [400], guidesY = [] \<rparr>
   \<and> getSnapped example_snap 395 300 True
     = \<lparr> snap_x = 395, snap_y = 300, guidesX = [], guidesY = [] \<rparr>
   \<and> candX example_snap 395 = [0, 400, 800, 400, 610]
   \<and> candY example_snap 300 = [0, 400, 800, 320, 130]
   \<and> snapGrid example_snap \<and> gridSize example_snap \<noteq> 0
   \<and> \<bar>of_int 10 * gridSize example_snap - 395\<bar> \<le> 8
   \<and> getSnapped example_cells 20 590 False
     = \<lparr> snap_x = 16, snap_y = 596, guidesX = [16], guidesY = [596] \<rparr>
   \<and> candX example_cells 20 =
       [0, 392, 784, 16, 136, 256, 272, 392, 512, 528, 648, 768,
        16, 136, 256, 272, 392, 512, 528, 648, 768]
   \<and> candY example_cells 590 =
       [0, 400, 800, 16, 204, 392, 16, 204, 392, 16, 204, 392,
        408, 596, 784, 408, 596, 784, 408, 596, 784]
   \<and> showCells example_cells \<and> 0 < cell_rows example_cells \<and> 0 < cell_cols example_cells
   \<and> drag_position example_cells 25 595 5 5 False = (16, 596)
   \<and> drag_position example_off 391 300 0 0 False = (391, 300)"
  using snap_nearest_per_axis [where cfg = example_snap and nx = 395 and ny = 300]
    snap_nearest_per_axis [where cfg = example_cells and nx = 20 and ny = 590 and px = 25
      and py = 595 and dx = 5 and dy = 5]
    snap_nearest_per_axis [where cfg = example_off and px = 391 and py = 300 and dx = 0 and dy = 0]
  by (simp add: example_candX example_candY example_cells_candX example_cells_candY
      example_toggles getSnapped_def snap_axis_def snap_step_def thresh_def guide_list_def
      drag_position_def)

text \<open>
  C5. Snapping the position that the snap search returned, under the same configuration,
  returns that position again.
\<close>

theorem snap_idempotent:
  "snap_x (getSnapped cfg (snap_x (getSnapped cfg nx ny ignoreSnap))
                          (snap_y (getSnapped cfg nx ny ignoreSnap)) ignoreSnap)
     = snap_x (getSnapped cfg nx ny ignoreSnap)
   \<and> snap_y (getSnapped cfg (snap_x (getSnapped cfg nx ny ignoreSnap))
                          (snap_y (getSnapped cfg nx ny ignoreSnap)) ignoreSnap)
     = snap_y (getSnapped cfg nx ny ignoreSnap)"
proof (cases ignoreSnap)
  case True
  then show ?thesis by (simp add: getSnapped_ignore)
next
  case False
  have "fst (snd (snap_axis (fst (snd (snap_axis nx (candX cfg nx)))) (candX cfg (fst (snd (snap_axis nx (candX cfg nx)))))))
         = fst (snd (snap_axis nx (candX cfg nx)))"
    by (rule snap_axis_idem [of "candX cfg" nx]) (rule candX_fixed)
  moreover have "fst (snd (snap_axis (fst (snd (snap_axis ny (candY cfg ny)))) (candY cfg (fst (snd (snap_axis ny (candY cfg ny)))))))
         = fst (snd (snap_axis ny (candY cfg ny)))"
    by (rule snap_axis_idem [of "candY cfg" ny]) (rule candY_fixed)
  ultimately show ?thesis using False by (simp add: getSnapped_axes)
qed

text \<open>
  C10. Each coordinate of the result of the snap search is within 8 pixels of the raw
  coordinate, and the search reports at most one vertical and at most one horizontal
  guide.
\<close>

theorem snap_within_threshold:
  "\<bar>snap_x (getSnapped cfg nx ny ignoreSnap) - nx\<bar> \<le> 8
   \<and> \<bar>snap_y (getSnapped cfg nx ny ignoreSnap) - ny\<bar> \<le> 8
   \<and> length (guidesX (getSnapped cfg nx ny ignoreSnap)) \<le> 1
   \<and> length (guidesY (getSnapped cfg nx ny ignoreSnap)) \<le> 1"
proof (cases ignoreSnap)
  case True
  then show ?thesis by (simp add: getSnapped_ignore)
next
  case False
  then show ?thesis
    using snap_axis_close [of nx "candX cfg nx"] snap_axis_close [of ny "candY cfg ny"]
    by (simp add: getSnapped_axes thresh_def)
qed

section \<open>Layout modes, mode switching and the export response\<close>

text \<open>
  C6, as stated, fails: the union type \<open>LayoutMode\<close> is not the set of the seven
  values grid, left-big, right-big, top-big, bottom-big, single-blur (the mode labelled
  "Single Focus") and freeform, since it has the member grid-square.
\<close>

theorem LayoutMode_not_seven:
  "set LayoutMode \<noteq> {Grid, Left_big, Right_big, Top_big, Bottom_big, Single_blur, Freeform}"
proof
  assume "set LayoutMode = {Grid, Left_big, Right_big, Top_big, Bottom_big, Single_blur, Freeform}"
  moreover have "Grid_square \<in> set LayoutMode" by (simp add: LayoutMode_def)
  ultimately show False by simp
qed

text \<open>
  C6, amended. The modes that the layout selector offers are exactly the seven values
  grid, left-big, right-big, top-big, bottom-big, single-blur and freeform, each once.
  The declared type \<open>LayoutMode\<close> contains grid, left-big, right-big, top-big,
  bottom-big and single-blur and, besides them, grid-square and justified, for which
  the layout switches of the export worker and of the application place no image.
\<close>

theorem selectable_modes:
  "set layout_mode_options
     = {Grid, Left_big, Right_big, Top_big, Bottom_big, Single_blur, Freeform}
   \<and> distinct layout_mode_options \<and> length layout_mode_options = 7
   \<and> {Grid, Left_big, Right_big, Top_big, Bottom_big, Single_blur, Grid_square, Justified}
       \<subseteq> set LayoutMode
   \<and> export_layout Grid_square W H gx gy z imgs = []
   \<and> export_layout Justified W H gx gy z imgs = []
   \<and> app_layout Grid_square W H gx gy s = []
   \<and> app_layout Justified W H gx gy s = []"
  by (auto simp: layout_mode_options_def LayoutMode_def)

text \<open>
  C8, as stated, fails on the shape of the messages. The message posted when no
  context could be obtained has neither a key \<open>status\<close> nor a key \<open>message\<close>: its keys
  are \<open>type\<close>, with the value \<open>'error'\<close>, and \<open>error\<close>, with the description. The
  success message likewise has the key \<open>type\<close> and no key \<open>status\<close>.
\<close>

theorem export_message_keys:
  "export_onmessage False (Inr ()) (Inr (0::nat)) =
     [[(''type'', JString ''error''),
       (''error'', JString ''Could not get OffscreenCanvas context'')]]
   \<and> map_of (hd (export_onmessage False (Inr ()) (Inr (0::nat)))) ''status'' = None
   \<and> map_of (hd (export_onmessage False (Inr ()) (Inr (0::nat)))) ''message'' = None
   \<and> map_of (hd (export_onmessage True (Inr ()) (Inr (0::nat)))) ''status'' = None
   \<and> map_of (hd (export_onmessage True (Inr ()) (Inr (0::nat)))) ''type''
       = Some (JString ''success'')"
  by (simp add: export_onmessage_def)

text \<open>
  C8, amended. For every export request the export worker posts exactly one message,
  one of two shapes. It is \<open>{type: 'success', blob}\<close>, carrying the encoded blob, when a
  context was obtained, the draw pass did not throw and \<open>convertToBlob\<close> gave the blob.
  Otherwise it is \<open>{type: 'error', error}\<close>, where \<open>error\<close> is the description of the
  failure: the fixed text "Could not get OffscreenCanvas context" when there is no
  context, and else the message of the \<open>Error\<close> thrown by the draw pass or by
  \<open>convertToBlob\<close>, or the string of the value thrown when it is not an \<open>Error\<close>.
\<close>

theorem export_one_response:
  "length (export_onmessage has_ctx draw_outcome blob_outcome) = 1
   \<and> (\<not> has_ctx \<longrightarrow>
        export_onmessage has_ctx draw_outcome blob_outcome =
          [[(''type'', JString ''error''),
            (''error'', JString ''Could not get OffscreenCanvas context'')]])
   \<and> (has_ctx \<and> draw_outcome = Inl (Error_object m) \<longrightarrow>
        export_onmessage has_ctx draw_outcome blob_outcome =
          [[(''type'', JString ''error''), (''error'', JString m)]])
   \<and> (has_ctx \<and> draw_outcome = Inl (Other_thrown v) \<longrightarrow>
        export_onmessage has_ctx draw_outcome blob_outcome =
          [[(''type'', JString ''error''), (''error'', JString v)]])
   \<and> (has_ctx \<and> draw_outcome = Inr () \<and> blob_outcome = Inl (Error_object m) \<longrightarrow>
        export_onmessage has_ctx draw_outcome blob_outcome =
          [[(''type'', JString ''error''), (''error'', JString m)]])
   \<and> (has_ctx \<and> draw_outcome = Inr () \<and> blob_outcome = Inl (Other_thrown v) \<longrightarrow>
        export_onmessage has_ctx draw_outcome blob_outcome =
          [[(''type'', JString ''error''), (''error'', JString v)]])
   \<and> (has_ctx \<and> draw_outcome = Inr () \<and> blob_outcome = Inr blob \<longrightarrow>
        export_onmessage has_ctx draw_outcome blob_outcome =
          [[(''type'', JString ''success''), (''blob'', JBlob blob)]])"
  by (cases draw_outcome; cases blob_outcome) (auto simp: export_onmessage_def)

theorem export_one_response_witness:
  "export_onmessage False (Inr ()) (Inr (7::nat)) =
     [[(''type'', JString ''error''),
       (''error'', JString ''Could not get OffscreenCanvas context'')]]
   \<and> export_onmessage True (Inl (Error_object ''The image is detached'')) (Inr (7::nat)) =
     [[(''type'', JString ''error''), (''error'', JString ''The image is detached'')]]
   \<and> export_onmessage True (Inl (Other_thrown ''boom'')) (Inr (7::nat)) =
     [[(''type'', JString ''error''), (''error'', JString ''boom'')]]
   \<and> export_onmessage True (Inr ()) (Inl (Error_object ''encode failed'') :: thrown + nat) =
     [[(''type'', JString ''error''), (''error'', JString ''encode failed'')]]
   \<and> export_onmessage True (Inr ()) (Inl (Other_thrown ''42'') :: thrown + nat) =
     [[(''type'', JString ''error''), (''error'', JString ''42'')]]
   \<and> export_onmessage True (Inr ()) (Inr (7::nat)) =
     [[(''type'', JString ''success''), (''blob'', JBlob 7)]]
   \<and> length (export_onmessage True (Inr ()) (Inr (7::nat))) = 1"
  using export_one_response [where has_ctx = False and draw_outcome = "Inr ()"
      and blob_outcome = "Inr (7::nat)"]
    export_one_response [where has_ctx = True
      and draw_outcome = "Inl (Error_object ''The image is detached'')"
      and blob_outcome = "Inr (7::nat)" and m = "''The image is detached''"]
    export_one_response [where has_ctx = True and draw_outcome = "Inl (Other_thrown ''boom'')"
      and blob_outcome = "Inr (7::nat)" and v = "''boom''"]
    export_one_response [where has_ctx = True and draw_outcome = "Inr ()"
      and blob_outcome = "Inl (Error_object ''encode failed'') :: thrown + nat"
      and m = "''encode failed''"]
    export_one_response [where has_ctx = True and draw_outcome = "Inr ()"
      and blob_outcome = "Inl (Other_thrown ''42'') :: thrown + nat" and v = "''42''"]
    export_one_response [where has_ctx = True and draw_outcome = "Inr ()"
      and blob_outcome = "Inr (7::nat)" and blob = 7]
  by simp

text \<open>
  C9. Selecting a layout mode (the setter followed by the effect on the mode), from any
  mode to any mode, leaves the list of images and the bitmaps as they were and makes the
  selected mode the active one; the same holds for the reset of the settings, which
  makes grid the active mode.
\<close>

theorem mode_switch_keeps_images:
  "images (select_layout_mode m s) = images s
   \<and> imageBitmaps (select_layout_mode m s) = imageBitmaps s
   \<and> layoutMode (select_layout_mode m s) = m
   \<and> images (reset_settings s) = images s
   \<and> imageBitmaps (reset_settings s) = imageBitmaps s
   \<and> layoutMode (reset_settings s) = Grid"
  by (simp add: select_layout_mode_def setLayoutMode_def layoutMode_effect_def
      reset_settings_def Let_def)

section \<open>The big layouts\<close>

lemma clamp_twice:
  fixes a g c :: real
  assumes "0 \<le> g" and "1 \<le> c"
  shows "max 0 ((max 0 a - (c - 1) * g) / c) = max 0 ((a + 2 * g - (c + 1) * g) / c)"
proof -
  have num: "a + 2 * g - (c + 1) * g = a - (c - 1) * g" by (simp add: algebra_simps)
  show ?thesis
  proof (cases "0 \<le> a")
    case True
    then have "max 0 a = a" by simp
    then show ?thesis unfolding num by simp
  next
    case False
    then have z: "max 0 a = 0" by simp
    have p: "0 \<le> (c - 1) * g" using assms by simp
    have "(0 - (c - 1) * g) / c \<le> 0" using p assms(2) by (simp add: field_simps)
    then have l: "max 0 ((0 - (c - 1) * g) / c) = 0" by (rule max_absorb1)
    have "a - (c - 1) * g \<le> 0" using False p by linarith
    then have "(a - (c - 1) * g) / c \<le> 0" using assms(2) by (simp add: field_simps)
    then have r: "max 0 ((a - (c - 1) * g) / c) = 0" by (rule max_absorb1)
    show ?thesis unfolding num z l r ..
  qed
qed

lemma lr_cellWidth_as_grid:
  assumes "0 \<le> gapX"
  shows "lr_cellWidth W gapX n = grid_cellWidth (W / 2 + gapX / 2) gapX n"
proof -
  have c: "1 \<le> real (layout_cols n)" using layout_cols_pos [of n] by simp
  have w: "W / 2 + gapX / 2 = (W / 2 - gapX * (3 / 2)) + 2 * gapX" by simp
  show ?thesis
    unfolding lr_cellWidth_def grid_cellWidth_def Let_def w
    by (rule clamp_twice [OF assms c])
qed

lemma tb_cellHeight_as_grid:
  assumes "0 \<le> gapY"
  shows "tb_cellHeight H gapY n = grid_cellHeight (H / 2 + gapY / 2) gapY n"
proof -
  have c: "1 \<le> real (layout_rows n)" using layout_rows_pos [of n] by simp
  have h: "H / 2 + gapY / 2 = (H / 2 - gapY * (3 / 2)) + 2 * gapY" by simp
  show ?thesis
    unfolding tb_cellHeight_def grid_cellHeight_def Let_def h
    by (rule clamp_twice [OF assms c])
qed

lemma grid_in_rect_cells:
  "grid_in_rect x0 y0 w h gapX gapY imgs =
     forEach_cell (x0 + gapX) (y0 + gapY)
       (grid_cellWidth w gapX (length imgs)) (grid_cellHeight h gapY (length imgs))
       gapX gapY (layout_cols (length imgs)) imgs"
  by (simp add: grid_in_rect_def grid_case_def forEach_cell_def cell_rect_def add.assoc)

lemma rest_cells_lr_as_grid:
  assumes "0 \<le> gapX"
  shows "rest_cells_lr isLeftBig W H gapX gapY rest =
           grid_in_rect (if isLeftBig then W / 2 - gapX / 2 else 0) 0 (W / 2 + gapX / 2) H
             gapX gapY rest"
proof -
  have s: "W / 2 - gapX / 2 + gapX = W / 2 + gapX / 2" by simp
  show ?thesis
    by (cases isLeftBig)
      (simp_all only: rest_cells_lr_def grid_in_rect_cells lr_cellWidth_as_grid [OF assms]
        lr_startX_def s if_True if_False add_0)
qed

lemma rest_cells_tb_as_grid:
  assumes "0 \<le> gapY"
  shows "rest_cells_tb isTopBig W H gapX gapY rest =
           grid_in_rect 0 (if isTopBig then H / 2 - gapY / 2 else 0) W (H / 2 + gapY / 2)
             gapX gapY rest"
proof -
  have s: "H / 2 - gapY / 2 + gapY = H / 2 + gapY / 2" by simp
  show ?thesis
    by (cases isTopBig)
      (simp_all only: rest_cells_tb_def grid_in_rect_cells tb_cellHeight_as_grid [OF assms]
        tb_startY_def s if_True if_False add_0)
qed

lemma forEach_cell_Nil: "forEach_cell sx sy cw ch gx gy c [] = []"
  by (simp add: forEach_cell_def)

lemma grid_in_rect_Nil: "grid_in_rect x0 y0 w h gx gy [] = []"
  by (simp add: grid_in_rect_def grid_case_def forEach_cell_def)

lemma export_big_lr_as_grid:
  assumes "imgs \<noteq> []" and "0 \<le> gx"
  shows "export_big_lr isLeftBig W H gx gy imgs =
           Cell (imgs ! 0) (big_rect_lr isLeftBig W H gx gy) 1 #
           grid_in_rect (if isLeftBig then W / 2 - gx / 2 else 0) 0 (W / 2 + gx / 2) H gx gy
             (drop 1 imgs)"
proof (cases "length imgs > 1")
  case True
  with assms show ?thesis
    by (simp add: export_big_lr_def rest_cells_lr_as_grid)
next
  case False
  with assms(1) have "drop 1 imgs = []" by (cases imgs) auto
  with assms False show ?thesis
    by (simp add: export_big_lr_def grid_in_rect_Nil)
qed

lemma export_big_tb_as_grid:
  assumes "imgs \<noteq> []" and "0 \<le> gy"
  shows "export_big_tb isTopBig W H gx gy imgs =
           Cell (imgs ! 0) (big_rect_tb isTopBig W H gx gy) 1 #
           grid_in_rect 0 (if isTopBig then H / 2 - gy / 2 else 0) W (H / 2 + gy / 2) gx gy
             (drop 1 imgs)"
proof (cases "length imgs > 1")
  case True
  with assms show ?thesis
    by (simp add: export_big_tb_def rest_cells_tb_as_grid)
next
  case False
  with assms(1) have "drop 1 imgs = []" by (cases imgs) auto
  with assms False show ?thesis
    by (simp add: export_big_tb_def grid_in_rect_Nil)
qed

lemma ui_big_as_export:
  assumes "imgs \<noteq> []"
  shows "ui_layout Left_big W H g z imgs = Inr (export_layout Left_big W H g g z' imgs)"
    and "ui_layout Right_big W H g z imgs = Inr (export_layout Right_big W H g g z' imgs)"
    and "ui_layout Top_big W H g z imgs = Inr (export_layout Top_big W H g g z' imgs)"
    and "ui_layout Bottom_big W H g z imgs = Inr (export_layout Bottom_big W H g g z' imgs)"
  using assms
  by (cases imgs; simp add: ui_drawImage_first_def export_big_lr_def export_big_tb_def)+

lemma app_big_lr_as_grid:
  assumes "loaded_bitmaps (imageBitmaps s) (images s) \<noteq> []"
    and "app_big_bitmap (imageBitmaps s) (bigImageId s) (images s) = Some b"
    and "0 \<le> gx"
  shows "app_big_lr isLeftBig W H gx gy s =
           Cell b (big_rect_lr isLeftBig W H gx gy) 1 #
           (if 1 < length (images s)
            then grid_in_rect (if isLeftBig then W / 2 - gx / 2 else 0) 0 (W / 2 + gx / 2) H gx gy
                   (app_gridImages (imageBitmaps s) (bigImageId s) (images s))
            else [])"
  using assms by (simp add: app_big_lr_def rest_cells_lr_as_grid)

lemma app_big_tb_as_grid:
  assumes "loaded_bitmaps (imageBitmaps s) (images s) \<noteq> []"
    and "app_big_bitmap (imageBitmaps s) (bigImageId s) (images s) = Some b"
    and "0 \<le> gy"
  shows "app_big_tb isTopBig W H gx gy s =
           Cell b (big_rect_tb isTopBig W H gx gy) 1 #
           (if 1 < length (images s)
            then grid_in_rect 0 (if isTopBig then H / 2 - gy / 2 else 0) W (H / 2 + gy / 2) gx gy
                   (app_gridImages (imageBitmaps s) (bigImageId s) (images s))
            else [])"
  using assms by (simp add: app_big_tb_def rest_cells_tb_as_grid)

lemma cols_rows_two: "layout_cols (Suc (Suc 0)) = 2 \<and> layout_rows (Suc (Suc 0)) = 1"
proof -
  have c: "layout_cols 2 = 2" by (simp add: layout_cols_code ceil_sqrt_def)
  then have "layout_rows 2 = 1" by (simp add: layout_rows_def)
  with c show ?thesis by (simp add: numeral_2_eq_2)
qed

lemma left_big_three:
  "export_layout Left_big 800 600 16 16 1 [bmp 0, bmp 1, bmp 2] =
     [Cell (bmp 0) \<lparr>rect_x = 16, rect_y = 16, rect_w = 376, rect_h = 568\<rparr> 1,
      Cell (bmp 1) \<lparr>rect_x = 408, rect_y = 16, rect_w = 180, rect_h = 568\<rparr> 1,
      Cell (bmp 2) \<lparr>rect_x = 604, rect_y = 16, rect_w = 180, rect_h = 568\<rparr> 1]"
  by (simp add: export_big_lr_def big_rect_lr_def rest_cells_lr_def forEach_cell_def
      cell_rect_def lr_startX_def lr_cellWidth_def grid_cellHeight_def cols_rows_two upt_rec)

lemma grid_of_right_half:
  "grid_in_rect 400 0 400 600 16 16 [bmp 1, bmp 2] =
     [Cell (bmp 1) \<lparr>rect_x = 416, rect_y = 16, rect_w = 176, rect_h = 568\<rparr> 1,
      Cell (bmp 2) \<lparr>rect_x = 608, rect_y = 16, rect_w = 176, rect_h = 568\<rparr> 1]"
  by (simp add: grid_in_rect_def grid_case_def forEach_cell_def cell_rect_def
      grid_cellWidth_def grid_cellHeight_def cols_rows_two upt_rec)

lemma four_images_big:
  "app_big_bitmap (imageBitmaps four_images) (bigImageId four_images) (images four_images)
     = Some (bmp 0)
   \<and> app_gridImages (imageBitmaps four_images) (bigImageId four_images) (images four_images)
     = [bmp 1, bmp 2, bmp 3]"
  by (simp add: app_big_bitmap_def app_gridImages_def big_index_def four_images_def
      loaded_bitmaps_def)

text \<open>
  C3, as stated, fails. Left-big with three images on an 800 x 600 canvas and gap 16: the
  two remaining images are drawn at x = 408 and x = 604 with width 180, while the grid
  algorithm restricted to the right half (origin 400, width 400) puts them at x = 416
  and x = 608 with width 176.
\<close>

theorem big_rest_not_grid_of_half:
  "drop 1 (export_layout Left_big 800 600 16 16 1 [bmp 0, bmp 1, bmp 2])
     \<noteq> grid_in_rect 400 0 400 600 16 16 [bmp 1, bmp 2]
   \<and> drop 1 (export_layout Left_big 800 600 16 16 1 [bmp 0, bmp 1, bmp 2]) =
       [Cell (bmp 1) \<lparr>rect_x = 408, rect_y = 16, rect_w = 180, rect_h = 568\<rparr> 1,
        Cell (bmp 2) \<lparr>rect_x = 604, rect_y = 16, rect_w = 180, rect_h = 568\<rparr> 1]
   \<and> grid_in_rect 400 0 400 600 16 16 [bmp 1, bmp 2] =
       [Cell (bmp 1) \<lparr>rect_x = 416, rect_y = 16, rect_w = 176, rect_h = 568\<rparr> 1,
        Cell (bmp 2) \<lparr>rect_x = 608, rect_y = 16, rect_w = 176, rect_h = 568\<rparr> 1]"
  unfolding left_big_three grid_of_right_half by simp

text \<open>
  C3, amended. In the modes left-big, right-big, top-big and bottom-big with at least one
  image and a gap that is not negative, the big image is drawn in the rectangle that is
  the half minus 1.5 gaps along the split axis (clamped at zero) with one gap of margin
  at both ends of the other axis, and the remaining images are placed by the grid
  algorithm (its column and row counts, one gap before the first and after the last
  cell) applied to the other half widened by half a gap across the split line. So the
  first cell starts half a gap past the split line, and the gap between the big image
  and the cells is one gap centred on the split line. This holds for the export worker
  and the preview worker, where the big image is the first bitmap, and for the
  application, where it is the selected one. The example: left-big, three images,
  800 x 600, gap 16 gives the big rectangle (16, 16, 376, 568) and the other two images
  at x = 408 and x = 604, each 180 wide.
\<close>

theorem big_layouts:
  fixes W H gx gy g z :: real and imgs :: "bitmap list" and s :: app_state and b :: bitmap
  defines "wide \<equiv> max 0 (W / 2 - gx * (3 / 2))" and "tall \<equiv> max 0 (H - gy * 2)"
    and "broad \<equiv> max 0 (W - gx * 2)" and "low \<equiv> max 0 (H / 2 - gy * (3 / 2))"
  defines "rest \<equiv> drop 1 imgs"
    and "others \<equiv> app_gridImages (imageBitmaps s) (bigImageId s) (images s)"
  assumes N: "1 \<le> length imgs" and gx: "0 \<le> gx" and gy: "0 \<le> gy"
    and loaded: "loaded_bitmaps (imageBitmaps s) (images s) \<noteq> []"
    and big: "app_big_bitmap (imageBitmaps s) (bigImageId s) (images s) = Some b"
    and many: "1 < length (images s)"
  shows
    "export_layout Left_big W H gx gy z imgs =
       Cell (imgs ! 0) \<lparr>rect_x = gx, rect_y = gy, rect_w = wide, rect_h = tall\<rparr> 1 #
       grid_in_rect (W / 2 - gx / 2) 0 (W / 2 + gx / 2) H gx gy rest
     \<and> export_layout Right_big W H gx gy z imgs =
       Cell (imgs ! 0) \<lparr>rect_x = W / 2 + gx / 2, rect_y = gy, rect_w = wide, rect_h = tall\<rparr> 1 #
       grid_in_rect 0 0 (W / 2 + gx / 2) H gx gy rest
     \<and> export_layout Top_big W H gx gy z imgs =
       Cell (imgs ! 0) \<lparr>rect_x = gx, rect_y = gy, rect_w = broad, rect_h = low\<rparr> 1 #
       grid_in_rect 0 (H / 2 - gy / 2) W (H / 2 + gy / 2) gx gy rest
     \<and> export_layout Bottom_big W H gx gy z imgs =
       Cell (imgs ! 0) \<lparr>rect_x = gx, rect_y = H / 2 + gy / 2, rect_w = broad, rect_h = low\<rparr> 1 #
       grid_in_rect 0 0 W (H / 2 + gy / 2) gx gy rest
     \<and> app_layout Left_big W H gx gy s =
       Cell b \<lparr>rect_x = gx, rect_y = gy, rect_w = wide, rect_h = tall\<rparr> 1 #
       grid_in_rect (W / 2 - gx / 2) 0 (W / 2 + gx / 2) H gx gy others
     \<and> app_layout Right_big W H gx gy s =
       Cell b \<lparr>rect_x = W / 2 + gx / 2, rect_y = gy, rect_w = wide, rect_h = tall\<rparr> 1 #
       grid_in_rect 0 0 (W / 2 + gx / 2) H gx gy others
     \<and> app_layout Top_big W H gx gy s =
       Cell b \<lparr>rect_x = gx, rect_y = gy, rect_w = broad, rect_h = low\<rparr> 1 #
       grid_in_rect 0 (H / 2 - gy / 2) W (H / 2 + gy / 2) gx gy others
     \<and> app_layout Bottom_big W H gx gy s =
       Cell b \<lparr>rect_x = gx, rect_y = H / 2 + gy / 2, rect_w = broad, rect_h = low\<rparr> 1 #
       grid_in_rect 0 0 W (H / 2 + gy / 2) gx gy others
     \<and> ui_layout Left_big W H g z imgs = Inr (export_layout Left_big W H g g z imgs)
     \<and> ui_layout Right_big W H g z imgs = Inr (export_layout Right_big W H g g z imgs)
     \<and> ui_layout Top_big W H g z imgs = Inr (export_layout Top_big W H g g z imgs)
     \<and> ui_layout Bottom_big W H g z imgs = Inr (export_layout Bottom_big W H g g z imgs)"
proof -
  have ne: "imgs \<noteq> []" using N by auto
  have el: "export_layout Left_big W H gx gy z imgs =
       Cell (imgs ! 0) \<lparr>rect_x = gx, rect_y = gy, rect_w = wide, rect_h = tall\<rparr> 1 #
       grid_in_rect (W / 2 - gx / 2) 0 (W / 2 + gx / 2) H gx gy rest"
    using export_big_lr_as_grid [OF ne gx, of True W H gy]
    by (simp add: big_rect_lr_def wide_def tall_def rest_def)
  have er: "export_layout Right_big W H gx gy z imgs =
       Cell (imgs ! 0) \<lparr>rect_x = W / 2 + gx / 2, rect_y = gy, rect_w = wide, rect_h = tall\<rparr> 1 #
       grid_in_rect 0 0 (W / 2 + gx / 2) H gx gy rest"
    using export_big_lr_as_grid [OF ne gx, of False W H gy]
    by (simp add: big_rect_lr_def wide_def tall_def rest_def)
  have et: "export_layout Top_big W H gx gy z imgs =
       Cell (imgs ! 0) \<lparr>rect_x = gx, rect_y = gy, rect_w = broad, rect_h = low\<rparr> 1 #
       grid_in_rect 0 (H / 2 - gy / 2) W (H / 2 + gy / 2) gx gy rest"
    using export_big_tb_as_grid [OF ne gy, of True W H gx]
    by (simp add: big_rect_tb_def broad_def low_def rest_def)
  have eb: "export_layout Bottom_big W H gx gy z imgs =
       Cell (imgs ! 0) \<lparr>rect_x = gx, rect_y = H / 2 + gy / 2, rect_w = broad, rect_h = low\<rparr> 1 #
       grid_in_rect 0 0 W (H / 2 + gy / 2) gx gy rest"
    using export_big_tb_as_grid [OF ne gy, of False W H gx]
    by (simp add: big_rect_tb_def broad_def low_def rest_def)
  have al: "app_layout Left_big W H gx gy s =
       Cell b \<lparr>rect_x = gx, rect_y = gy, rect_w = wide, rect_h = tall\<rparr> 1 #
       grid_in_rect (W / 2 - gx / 2) 0 (W / 2 + gx / 2) H gx gy others"
    using app_big_lr_as_grid [OF loaded big gx, of True W H gy] many
    by (simp add: big_rect_lr_def wide_def tall_def others_def)
  have ar: "app_layout Right_big W H gx gy s =
       Cell b \<lparr>rect_x = W / 2 + gx / 2, rect_y = gy, rect_w = wide, rect_h = tall\<rparr> 1 #
       grid_in_rect 0 0 (W / 2 + gx / 2) H gx gy others"
    using app_big_lr_as_grid [OF loaded big gx, of False W H gy] many
    by (simp add: big_rect_lr_def wide_def tall_def others_def)
  have at: "app_layout Top_big W H gx gy s =
       Cell b \<lparr>rect_x = gx, rect_y = gy, rect_w = broad, rect_h = low\<rparr> 1 #
       grid_in_rect 0 (H / 2 - gy / 2) W (H / 2 + gy / 2) gx gy others"
    using app_big_tb_as_grid [OF loaded big gy, of True W H gx] many
    by (simp add: big_rect_tb_def broad_def low_def others_def)
  have ab: "app_layout Bottom_big W H gx gy s =
       Cell b \<lparr>rect_x = gx, rect_y = H / 2 + gy / 2, rect_w = broad, rect_h = low\<rparr> 1 #
       grid_in_rect 0 0 W (H / 2 + gy / 2) gx gy others"
    using app_big_tb_as_grid [OF loaded big gy, of False W H gx] many
    by (simp add: big_rect_tb_def broad_def low_def others_def)
  note u = ui_big_as_export [OF ne, of W H g z z]
  from el er et eb al ar at ab u show ?thesis by blast
qed

theorem big_layouts_witness:
  "export_layout Left_big 800 600 16 16 1 [bmp 0, bmp 1, bmp 2] =
     Cell (bmp 0) \<lparr>rect_x = 16, rect_y = 16, rect_w = 376, rect_h = 568\<rparr> 1 #
     grid_in_rect 392 0 408 600 16 16 [bmp 1, bmp 2]
   \<and> grid_in_rect 392 0 408 600 16 16 [bmp 1, bmp 2] =
     [Cell (bmp 1) \<lparr>rect_x = 408, rect_y = 16, rect_w = 180, rect_h = 568\<rparr> 1,
      Cell (bmp 2) \<lparr>rect_x = 604, rect_y = 16, rect_w = 180, rect_h = 568\<rparr> 1]
   \<and> app_layout Left_big 800 600 16 16 four_images =
     Cell (bmp 0) \<lparr>rect_x = 16, rect_y = 16, rect_w = 376, rect_h = 568\<rparr> 1 #
     grid_in_rect 392 0 408 600 16 16 [bmp 1, bmp 2, bmp 3]"
proof -
  have N: "1 \<le> length [bmp 0, bmp 1, bmp 2]" by simp
  have l: "loaded_bitmaps (imageBitmaps four_images) (images four_images) \<noteq> []"
    by (simp add: loaded_four)
  have m: "1 < length (images four_images)" by (simp add: four_images_def)
  have g: "(0::real) \<le> 16" by simp
  from big_layouts [OF N g g l conjunct1 [OF four_images_big] m, of 800 600 16 1]
  have e: "export_layout Left_big 800 600 16 16 1 [bmp 0, bmp 1, bmp 2] =
     Cell (bmp 0) \<lparr>rect_x = 16, rect_y = 16, rect_w = 376, rect_h = 568\<rparr> 1 #
     grid_in_rect 392 0 408 600 16 16 [bmp 1, bmp 2]"
    and a: "app_layout Left_big 800 600 16 16 four_images =
     Cell (bmp 0) \<lparr>rect_x = 16, rect_y = 16, rect_w = 376, rect_h = 568\<rparr> 1 #
     grid_in_rect 392 0 408 600 16 16 [bmp 1, bmp 2, bmp 3]"
    by (simp_all add: four_images_big)
  from e left_big_three have "grid_in_rect 392 0 408 600 16 16 [bmp 1, bmp 2] =
     [Cell (bmp 1) \<lparr>rect_x = 408, rect_y = 16, rect_w = 180, rect_h = 568\<rparr> 1,
      Cell (bmp 2) \<lparr>rect_x = 604, rect_y = 16, rect_w = 180, rect_h = 568\<rparr> 1]"
    by simp
  with e a show ?thesis by blast
qed

section \<open>Placements do not overlap and stay inside the canvas\<close>




lemma placements_forEach_cell:
  "placements (forEach_cell sx sy cw ch gx gy c imgs) =
     map (cell_rect sx sy cw ch gx gy c) [0..<length imgs]"
  by (simp add: placements_def forEach_cell_def List.map_filter_def comp_def)















lemma placements_simps:
  "placements [] = []"
  "placements (Cell b p z # ps) = p # placements ps"
  "placements (Tile b p # ps) = p # placements ps"
  "placements (xs @ ys) = placements xs @ placements ys"
  by (simp_all add: placements_def List.map_filter_def)



lemma well_placed_tl: "well_placed W H (b # ps) \<Longrightarrow> well_placed W H ps"
  by (auto simp: well_placed_def no_overlaps_def split: if_splits)























lemma placements_blur_tiles:
  "placements (blur_tiles W H bg) = map (blur_tile_rect W H (length bg)) [0..<length bg]"
  "tile_placements (blur_tiles W H bg) = map (blur_tile_rect W H (length bg)) [0..<length bg]"
  by (simp_all add: placements_def tile_placements_def blur_tiles_def List.map_filter_def comp_def)






lemma cols_rows_one: "layout_cols (Suc 0) = 1 \<and> layout_rows (Suc 0) = 1"
proof -
  have c: "layout_cols 1 = 1" by (simp add: layout_cols_code ceil_sqrt_def)
  then have "layout_rows 1 = 1" by (simp add: layout_rows_def)
  with c show ?thesis by simp
qed







section \<open>Empty working set and degenerate geometry\<close>

lemma export_layout_no_images: "export_layout mode W H gx gy z [] = []"
  by (cases mode) (simp_all add: export_big_lr_def export_big_tb_def single_blur_case_def)

lemma app_layout_no_images:
  assumes "images s = []"
  shows "app_layout mode W H gx gy s = []"
  using assms
  by (cases mode)
    (simp_all add: app_big_lr_def app_big_tb_def single_blur_case_def loaded_bitmaps_def
      List.map_filter_simps)

lemma ui_layout_ok:
  assumes "imgs \<noteq> []"
  shows "\<not> isl (ui_layout mode W H g z imgs)"
  using assms by (cases mode; cases imgs) (simp_all add: ui_drawImage_first_def)

lemma ui_drawCanvas_ok:
  assumes "imgs \<noteq> []"
  shows "snd (ui_drawCanvas W H mode n g z wm imgs wmb) = None"
  using ui_layout_ok [OF assms, of mode W H g z]
  by (cases "ui_layout mode W H g z imgs") (simp_all add: ui_drawCanvas_def)

text \<open>
  The preview worker with a non-empty image list in its state and an empty list of
  bitmaps: the unguarded draw of the first bitmap throws after the background.
\<close>

lemma ui_worker_throws_without_bitmaps:
  "ui_drawCanvas 800 600 Left_big 1 16 1 False [] None = ([Background], Some TypeError)"
  by (simp add: ui_drawCanvas_def ui_drawImage_first_def big_rect_lr_def)

lemma cells_width:
  "list_all (\<lambda>p. rect_w p = cw) (placements (forEach_cell sx sy cw ch gx gy c imgs))"
  by (simp add: placements_forEach_cell list_all_iff cell_rect_def)

lemma cells_height:
  "list_all (\<lambda>p. rect_h p = ch) (placements (forEach_cell sx sy cw ch gx gy c imgs))"
  by (simp add: placements_forEach_cell list_all_iff cell_rect_def)

lemma clamp_zero:
  fixes a c :: real
  assumes "a \<le> 0" and "0 < c"
  shows "max 0 (a / c) = 0"
proof -
  have "a / c \<le> 0" using assms by (simp add: field_simps)
  then show ?thesis by (rule max_absorb1)
qed

lemma zero_width_cells:
  assumes "0 \<le> gx"
  shows "grid_cellWidth 0 gx n = 0" and "lr_cellWidth 0 gx n = 0"
proof -
  have c: "0 < real (layout_cols n)" using layout_cols_pos [of n] by simp
  have c1: "0 \<le> real (layout_cols n) - 1" using layout_cols_pos [of n] by simp
  have "0 - (real (layout_cols n) + 1) * gx \<le> 0" using assms c by simp
  then show "grid_cellWidth 0 gx n = 0"
    unfolding grid_cellWidth_def using c by (rule clamp_zero)
  have z: "max 0 (0 / 2 - gx * (3 / 2)) = 0" using assms by simp
  have "0 - (real (layout_cols n) - 1) * gx \<le> 0" using assms c1 by simp
  then show "lr_cellWidth 0 gx n = 0"
    unfolding lr_cellWidth_def Let_def z using c by (rule clamp_zero)
qed

lemma zero_height_cells:
  assumes "0 \<le> gy"
  shows "grid_cellHeight 0 gy n = 0" and "tb_cellHeight 0 gy n = 0"
proof -
  have c: "0 < real (layout_rows n)" using layout_rows_pos [of n] by simp
  have c1: "0 \<le> real (layout_rows n) - 1" using layout_rows_pos [of n] by simp
  have "0 - (real (layout_rows n) + 1) * gy \<le> 0" using assms c by simp
  then show "grid_cellHeight 0 gy n = 0"
    unfolding grid_cellHeight_def using c by (rule clamp_zero)
  have z: "max 0 (0 / 2 - gy * (3 / 2)) = 0" using assms by simp
  have "0 - (real (layout_rows n) - 1) * gy \<le> 0" using assms c1 by simp
  then show "tb_cellHeight 0 gy n = 0"
    unfolding tb_cellHeight_def Let_def z using c by (rule clamp_zero)
qed

lemma zero_width_parts:
  assumes "0 \<le> gx"
  shows "list_all (\<lambda>p. rect_w p = 0) (placements (grid_case 0 H gx gy imgs))"
    and "list_all (\<lambda>p. rect_w p = 0) (placements (rest_cells_lr l 0 H gx gy imgs))"
    and "list_all (\<lambda>p. rect_w p = 0) (placements (rest_cells_tb l 0 H gx gy imgs))"
    and "rect_w (big_rect_lr l 0 H gx gy) = 0"
    and "rect_w (big_rect_tb l 0 H gx gy) = 0"
    and "list_all (\<lambda>p. rect_w p = 0) (placements (blur_tiles 0 H imgs))"
    and "rect_w (focus_rect 0 H) = 0"
proof -
  show "list_all (\<lambda>p. rect_w p = 0) (placements (grid_case 0 H gx gy imgs))"
    unfolding grid_case_def using cells_width [where cw = "grid_cellWidth 0 gx (length imgs)"]
    by (simp add: zero_width_cells [OF assms])
  show "list_all (\<lambda>p. rect_w p = 0) (placements (rest_cells_lr l 0 H gx gy imgs))"
    unfolding rest_cells_lr_def using cells_width [where cw = "lr_cellWidth 0 gx (length imgs)"]
    by (simp add: zero_width_cells [OF assms])
  show "list_all (\<lambda>p. rect_w p = 0) (placements (rest_cells_tb l 0 H gx gy imgs))"
    unfolding rest_cells_tb_def using cells_width [where cw = "grid_cellWidth 0 gx (length imgs)"]
    by (simp add: zero_width_cells [OF assms])
  show "rect_w (big_rect_lr l 0 H gx gy) = 0" using assms by (simp add: big_rect_lr_def)
  show "rect_w (big_rect_tb l 0 H gx gy) = 0" using assms by (simp add: big_rect_tb_def)
  show "list_all (\<lambda>p. rect_w p = 0) (placements (blur_tiles 0 H imgs))"
    by (simp add: placements_blur_tiles list_all_iff blur_tile_rect_def Let_def)
  show "rect_w (focus_rect 0 H) = 0" by (simp add: focus_rect_def)
qed

lemma zero_height_parts:
  assumes "0 \<le> gy"
  shows "list_all (\<lambda>p. rect_h p = 0) (placements (grid_case W 0 gx gy imgs))"
    and "list_all (\<lambda>p. rect_h p = 0) (placements (rest_cells_lr l W 0 gx gy imgs))"
    and "list_all (\<lambda>p. rect_h p = 0) (placements (rest_cells_tb l W 0 gx gy imgs))"
    and "rect_h (big_rect_lr l W 0 gx gy) = 0"
    and "rect_h (big_rect_tb l W 0 gx gy) = 0"
    and "list_all (\<lambda>p. rect_h p = 0) (placements (blur_tiles W 0 imgs))"
    and "rect_h (focus_rect W 0) = 0"
proof -
  show "list_all (\<lambda>p. rect_h p = 0) (placements (grid_case W 0 gx gy imgs))"
    unfolding grid_case_def using cells_height [where ch = "grid_cellHeight 0 gy (length imgs)"]
    by (simp add: zero_height_cells [OF assms])
  show "list_all (\<lambda>p. rect_h p = 0) (placements (rest_cells_lr l W 0 gx gy imgs))"
    unfolding rest_cells_lr_def using cells_height [where ch = "grid_cellHeight 0 gy (length imgs)"]
    by (simp add: zero_height_cells [OF assms])
  show "list_all (\<lambda>p. rect_h p = 0) (placements (rest_cells_tb l W 0 gx gy imgs))"
    unfolding rest_cells_tb_def using cells_height [where ch = "tb_cellHeight 0 gy (length imgs)"]
    by (simp add: zero_height_cells [OF assms])
  show "rect_h (big_rect_lr l W 0 gx gy) = 0" using assms by (simp add: big_rect_lr_def)
  show "rect_h (big_rect_tb l W 0 gx gy) = 0" using assms by (simp add: big_rect_tb_def)
  show "list_all (\<lambda>p. rect_h p = 0) (placements (blur_tiles W 0 imgs))"
    by (simp add: placements_blur_tiles list_all_iff blur_tile_rect_def Let_def)
  show "rect_h (focus_rect W 0) = 0" by (simp add: focus_rect_def)
qed

lemma zero_width_export:
  assumes "0 \<le> gx"
  shows "list_all (\<lambda>p. rect_w p = 0) (placements (export_layout mode 0 H gx gy z imgs))"
  by (cases mode)
    (simp_all add: export_big_lr_def export_big_tb_def single_blur_case_def Let_def
      placements_simps zero_width_parts [OF assms])

lemma zero_height_export:
  assumes "0 \<le> gy"
  shows "list_all (\<lambda>p. rect_h p = 0) (placements (export_layout mode W 0 gx gy z imgs))"
  by (cases mode)
    (simp_all add: export_big_lr_def export_big_tb_def single_blur_case_def Let_def
      placements_simps zero_height_parts [OF assms])

lemma zero_width_app:
  assumes "0 \<le> gx"
  shows "list_all (\<lambda>p. rect_w p = 0) (placements (app_layout mode 0 H gx gy s))"
  by (cases mode)
    (simp_all add: app_big_lr_def app_big_tb_def single_blur_case_def Let_def
      placements_simps zero_width_parts [OF assms] split: option.splits)

lemma zero_height_app:
  assumes "0 \<le> gy"
  shows "list_all (\<lambda>p. rect_h p = 0) (placements (app_layout mode W 0 gx gy s))"
  by (cases mode)
    (simp_all add: app_big_lr_def app_big_tb_def single_blur_case_def Let_def
      placements_simps zero_height_parts [OF assms] split: option.splits)

text \<open>
  C7, as stated, fails for the export draws: with an empty working set the export worker
  and the export pass of the application paint the background only, not the placeholder.
\<close>

theorem export_paints_no_placeholder:
  "Placeholder_text \<notin> set (drawExportCanvas 2000 1500 800 600 no_images_request)
   \<and> Placeholder_text \<notin> set (drawCanvas no_images True 800 600 True)
   \<and> drawExportCanvas 2000 1500 800 600 no_images_request = [Background]
   \<and> drawCanvas no_images True 800 600 True = [Background]"
  by (simp add: drawExportCanvas_def drawCanvas_def no_images_request_def no_images_def
      watermark_step_def text_step_def loaded_bitmaps_def List.map_filter_simps)

text \<open>
  C7, amended. With an empty working set no draw places an image and none fails: the
  interactive draw and the preview worker paint the background and then the placeholder
  text; the export pass of the application and the export worker paint no placeholder
  but the background, the watermark if there is one, and the text layers. On a canvas
  of width zero every placement has width zero, and on a canvas of height zero every
  placement has height zero (gaps not negative); the helper that draws an image returns
  without painting when the width or the height of the placement is not positive. The
  draw pass of the preview worker ends without an error whenever its list of bitmaps is
  not empty.
\<close>

theorem empty_and_degenerate_draws:
  "(images s = [] \<longrightarrow> drawCanvas s True lw lh False = [Background, Placeholder_text])
   \<and> ui_drawCanvas W H mode 0 g z wm grid wmb = ([Background, Placeholder_text], None)
   \<and> (images s = [] \<longrightarrow>
        drawCanvas s True lw lh True =
          Background # watermark_step (watermark s) (watermarkBitmap s) @ text_step (textLayers s))
   \<and> (req_grid r = [] \<longrightarrow>
        drawExportCanvas EW EH sw sh r =
          Background # watermark_step (req_watermark r) (req_watermarkBitmap r)
            @ text_step (req_textLayers r))
   \<and> (0 \<le> gx \<longrightarrow>
        list_all (\<lambda>p. rect_w p = 0) (placements (export_layout mode 0 H gx gy z imgs)) \<and>
        list_all (\<lambda>p. rect_w p = 0) (placements (app_layout mode 0 H gx gy s)))
   \<and> (0 \<le> gy \<longrightarrow>
        list_all (\<lambda>p. rect_h p = 0) (placements (export_layout mode W 0 gx gy z imgs)) \<and>
        list_all (\<lambda>p. rect_h p = 0) (placements (app_layout mode W 0 gx gy s)))
   \<and> (rect_w p \<le> 0 \<or> rect_h p \<le> 0 \<longrightarrow> drawImage_returns_early b p)
   \<and> (grid \<noteq> [] \<longrightarrow> snd (ui_drawCanvas W H mode n g z wm grid wmb) = None)"
proof -
  have a: "drawCanvas s True lw lh False = [Background, Placeholder_text]" if "images s = []"
    using that by (simp add: drawCanvas_def)
  have u: "ui_drawCanvas W H mode 0 g z wm grid wmb = ([Background, Placeholder_text], None)"
    by (simp add: ui_drawCanvas_def)
  have e: "drawCanvas s True lw lh True =
          Background # watermark_step (watermark s) (watermarkBitmap s) @ text_step (textLayers s)"
    if "images s = []"
    using that by (simp add: drawCanvas_def app_layout_no_images)
  have w: "drawExportCanvas EW EH sw sh r =
          Background # watermark_step (req_watermark r) (req_watermarkBitmap r)
            @ text_step (req_textLayers r)"
    if "req_grid r = []"
    using that by (simp add: drawExportCanvas_def export_layout_no_images)
  have d: "drawImage_returns_early b p" if "rect_w p \<le> 0 \<or> rect_h p \<le> 0"
    using that by (auto simp: drawImage_returns_early_def)
  from a u e w d zero_width_export [of gx mode H gy z imgs] zero_width_app [of gx mode H gy s]
    zero_height_export [of gy mode W gx z imgs] zero_height_app [of gy mode W gx s]
    ui_drawCanvas_ok [of grid W H mode n g z wm wmb]
  show ?thesis by blast
qed

theorem empty_and_degenerate_draws_witness:
  "drawCanvas no_images True 800 600 False = [Background, Placeholder_text]
   \<and> ui_drawCanvas 800 600 Left_big 0 16 1 False [] None = ([Background, Placeholder_text], None)
   \<and> drawCanvas no_images True 800 600 True = [Background]
   \<and> drawExportCanvas 2000 1500 800 600 no_images_request = [Background]
   \<and> placements (export_layout Left_big 0 600 16 16 1 [bmp 0, bmp 1])
       = [\<lparr>rect_x = 16, rect_y = 16, rect_w = 0, rect_h = 568\<rparr>,
          \<lparr>rect_x = 8, rect_y = 16, rect_w = 0, rect_h = 568\<rparr>]
   \<and> drawImage_returns_early (bmp 0) \<lparr>rect_x = 16, rect_y = 16, rect_w = 0, rect_h = 568\<rparr>
   \<and> snd (ui_drawCanvas 800 600 Left_big 1 16 1 False [bmp 0] None) = None
   \<and> images no_images = [] \<and> req_grid no_images_request = []"
proof -
  have i: "images no_images = []" and r: "req_grid no_images_request = []"
    by (simp_all add: no_images_def no_images_request_def)
  have l: "placements (export_layout Left_big 0 600 16 16 1 [bmp 0, bmp 1])
       = [\<lparr>rect_x = 16, rect_y = 16, rect_w = 0, rect_h = 568\<rparr>,
          \<lparr>rect_x = 8, rect_y = 16, rect_w = 0, rect_h = 568\<rparr>]"
    by (simp add: export_big_lr_def big_rect_lr_def rest_cells_lr_def forEach_cell_def
      cell_rect_def lr_startX_def lr_cellWidth_def grid_cellHeight_def cols_rows_one
      placements_simps)
  from empty_and_degenerate_draws [where s = no_images and r = no_images_request
      and mode = Left_big and gx = 16 and gy = 16 and imgs = "[bmp 0, bmp 1]" and z = 1
      and H = 600 and W = 800 and lw = 800 and lh = 600 and EW = 2000 and EH = 1500
      and sw = 800 and sh = 600 and n = 1 and g = 16 and wm = False and wmb = None
      and grid = "[bmp 0]" and b = "bmp 0"
      and p = "\<lparr>rect_x = 16, rect_y = 16, rect_w = 0, rect_h = 568\<rparr>"]
  show ?thesis
    unfolding l
    by (simp add: i r no_images_def no_images_request_def watermark_step_def text_step_def
        ui_drawCanvas_def)
qed

end
